theory Spec2Isabelle
  imports Complex_Main
begin

section \<open>Python string primitives used by server.py\<close>

text \<open>
  Strings are lists of characters. \<open>startswith\<close>, the substring test \<open>sub in s\<close> and
  \<open>str.replace\<close> follow CPython: \<open>replace\<close> scans from the left and replaces every
  non-overlapping occurrence; with an empty pattern it inserts the new text before every
  character and at the end.
\<close>

definition startswith :: "string \<Rightarrow> string \<Rightarrow> bool" where
  "startswith s p = (take (length p) s = p)"

fun contains :: "string \<Rightarrow> string \<Rightarrow> bool" where
  "contains sub [] = (sub = [])"
| "contains sub (c # cs) = (startswith (c # cs) sub \<or> contains sub cs)"

function replace_nonempty :: "string \<Rightarrow> string \<Rightarrow> string \<Rightarrow> string" where
  "replace_nonempty old new [] = []"
| "replace_nonempty old new (c # cs) =
     (if old \<noteq> [] \<and> startswith (c # cs) old
      then new @ replace_nonempty old new (drop (length old) (c # cs))
      else c # replace_nonempty old new cs)"
  by pat_completeness auto
termination
  by (relation "measure (\<lambda>(old, new, s). length s)") auto

definition str_replace :: "string \<Rightarrow> string \<Rightarrow> string \<Rightarrow> string" where
  "str_replace s old new =
     (if old = [] then new @ concat (map (\<lambda>c. c # new) s)
      else replace_nonempty old new s)"

definition lower_char :: "char \<Rightarrow> char" where
  "lower_char c =
     (case map_of (zip ''ABCDEFGHIJKLMNOPQRSTUVWXYZ'' ''abcdefghijklmnopqrstuvwxyz'') c of
        Some l \<Rightarrow> l
      | None \<Rightarrow> c)"

definition lower :: "string \<Rightarrow> string" where
  "lower s = map lower_char s"

section \<open>posixpath\<close>

text \<open>
  \<open>os.path.join\<close>, \<open>basename\<close>, \<open>dirname\<close> and \<open>splitext\<close> as posixpath computes
  them on strings. \<open>splitext\<close> takes the extension from the last dot of the last
  component, unless that component consists of leading dots only up to there.
\<close>

definition sep :: char where
  "sep = CHR ''/''"

definition path_join :: "string \<Rightarrow> string \<Rightarrow> string" where
  "path_join a b =
     (if startswith b [sep] then b
      else if a = [] \<or> last a = sep then a @ b
      else a @ [sep] @ b)"

definition basename :: "string \<Rightarrow> string" where
  "basename p = rev (takeWhile (\<lambda>c. c \<noteq> sep) (rev p))"

definition dirname :: "string \<Rightarrow> string" where
  "dirname p =
     (let head = rev (dropWhile (\<lambda>c. c \<noteq> sep) (rev p))
      in if head \<noteq> [] \<and> (\<exists>c \<in> set head. c \<noteq> sep)
         then rev (dropWhile (\<lambda>c. c = sep) (rev head))
         else head)"

definition splitext :: "string \<Rightarrow> string \<times> string" where
  "splitext p =
     (let b = basename p;
          e = rev (takeWhile (\<lambda>c. c \<noteq> CHR ''.'') (rev b));
          stem = take (length b - length e - 1) b
      in if CHR ''.'' \<in> set b \<and> (\<exists>c \<in> set stem. c \<noteq> CHR ''.'')
         then (take (length p - length e - 1) p, CHR ''.'' # e)
         else (p, []))"

text \<open>The components of a path string, as \<open>p.split('/')\<close> gives them.\<close>

fun split_sep :: "string \<Rightarrow> string list" where
  "split_sep [] = [[]]"
| "split_sep (c # cs) =
     (if c = sep then [] # split_sep cs
      else (case split_sep cs of w # ws \<Rightarrow> (c # w) # ws | [] \<Rightarrow> [[c]]))"

fun join_sep :: "string list \<Rightarrow> string" where
  "join_sep [] = []"
| "join_sep [c] = c"
| "join_sep (c # cs) = c @ [sep] @ join_sep cs"

fun common_prefix :: "string list \<Rightarrow> string list \<Rightarrow> nat" where
  "common_prefix (x # xs) (y # ys) = (if x = y then Suc (common_prefix xs ys) else 0)"
| "common_prefix _ _ = 0"

text \<open>
  \<open>os.path.relpath(path, start)\<close> for relative paths below the working directory whose
  components are ordinary names: both are cut into their non-empty components, the common
  prefix is dropped and every remaining component of \<open>start\<close> becomes \<open>..\<close>.
\<close>

definition relpath :: "string \<Rightarrow> string \<Rightarrow> string" where
  "relpath path start =
     (let start_list = filter (\<lambda>x. x \<noteq> []) (split_sep start);
          path_list = filter (\<lambda>x. x \<noteq> []) (split_sep path);
          i = common_prefix start_list path_list;
          rel_list = replicate (length start_list - i) ''..'' @ drop i path_list
      in if rel_list = [] then ''.'' else join_sep rel_list)"

section \<open>datetime\<close>

text \<open>
  A reading of \<open>datetime.now()\<close>. A valid reading has \<open>1000 \<le> year \<le> 9999\<close>, a month
  and day of two digits, and \<open>microsecond < 1000000\<close>, so every \<open>strftime\<close> field has its
  fixed width.
\<close>

record datetime =
  year :: nat
  month :: nat
  day :: nat
  hour :: nat
  minute :: nat
  second :: nat
  microsecond :: nat

definition digit :: "nat \<Rightarrow> char" where
  "digit d = ''0123456789'' ! (d mod 10)"

definition pad2 :: "nat \<Rightarrow> string" where
  "pad2 n = [digit (n div 10), digit n]"

definition pad4 :: "nat \<Rightarrow> string" where
  "pad4 n = [digit (n div 1000), digit (n div 100), digit (n div 10), digit n]"

definition pad6 :: "nat \<Rightarrow> string" where
  "pad6 n = [digit (n div 100000), digit (n div 10000), digit (n div 1000),
             digit (n div 100), digit (n div 10), digit n]"

text \<open>\<open>strftime("%Y-%m-%d")\<close>\<close>

definition strftime_date :: "datetime \<Rightarrow> string" where
  "strftime_date t = pad4 (year t) @ ''-'' @ pad2 (month t) @ ''-'' @ pad2 (day t)"

text \<open>\<open>strftime("%Y%m%d_%H%M%S")\<close>\<close>

definition strftime_compact :: "datetime \<Rightarrow> string" where
  "strftime_compact t =
     pad4 (year t) @ pad2 (month t) @ pad2 (day t) @ ''_'' @
     pad2 (hour t) @ pad2 (minute t) @ pad2 (second t)"

text \<open>\<open>strftime("%Y%m%d_%H%M%S_%f")\<close>\<close>

definition strftime_micro :: "datetime \<Rightarrow> string" where
  "strftime_micro t = strftime_compact t @ ''_'' @ pad6 (microsecond t)"

text \<open>\<open>isoformat()\<close>: the fraction is left out when the microsecond is zero.\<close>

definition isoformat :: "datetime \<Rightarrow> string" where
  "isoformat t =
     pad4 (year t) @ ''-'' @ pad2 (month t) @ ''-'' @ pad2 (day t) @ ''T'' @
     pad2 (hour t) @ '':'' @ pad2 (minute t) @ '':'' @ pad2 (second t) @
     (if microsecond t = 0 then [] else ''.'' @ pad6 (microsecond t))"

section \<open>The file tree\<close>

text \<open>
  The working directory of the server is a tree of regular files and directories; the
  children of a directory are kept in the order \<open>os.listdir\<close> and \<open>os.scandir\<close> report
  them. A path string addresses the tree through its components, compared literally: the
  tree answers as the operating system does for the paths whose components are all names
  of entries. An empty component (a leading, doubled or trailing separator) and the
  components \<open>.\<close> and \<open>..\<close> are not resolved, so a path holding one is found
  nowhere in the tree; the results on paths that a request provides are stated for paths
  without such components.
\<close>

datatype node = File string string | Dir string "node list"

fun name_of :: "node \<Rightarrow> string" where
  "name_of (File n d) = n"
| "name_of (Dir n cs) = n"

fun is_dir :: "node \<Rightarrow> bool" where
  "is_dir (Dir n cs) = True"
| "is_dir (File n d) = False"

fun find_child :: "string \<Rightarrow> node list \<Rightarrow> node option" where
  "find_child c [] = None"
| "find_child c (e # es) = (if name_of e = c then Some e else find_child c es)"

text \<open>Put a node among the children: in place of the child of that name, or at the end.\<close>

fun put_child :: "node \<Rightarrow> node list \<Rightarrow> node list" where
  "put_child n [] = [n]"
| "put_child n (e # es) = (if name_of e = name_of n then n # es else e # put_child n es)"

fun lookup :: "node list \<Rightarrow> string list \<Rightarrow> node option" where
  "lookup es [] = None"
| "lookup es (c # cs) =
     (case find_child c es of
        None \<Rightarrow> None
      | Some n \<Rightarrow>
          if cs = [] then Some n
          else (case n of Dir _ sub \<Rightarrow> lookup sub cs | File _ _ \<Rightarrow> None))"

datatype exn =
    FileNotFoundError
  | NotADirectoryError
  | IsADirectoryError
  | FileExistsError
  | JSONDecodeError
  | RuntimeError

text \<open>A chain of fresh directories \<open>c1/c2/...\<close>, as \<open>os.makedirs\<close> creates it.\<close>

fun fresh_dirs :: "string list \<Rightarrow> node list" where
  "fresh_dirs [] = []"
| "fresh_dirs (c # cs) = [Dir c (fresh_dirs cs)]"

text \<open>
  \<open>os.makedirs(p, exist_ok=True)\<close>: existing directories are kept, missing ones are
  created; a regular file in the way raises (\<open>FileExistsError\<close> for the last component,
  \<open>NotADirectoryError\<close> before it).
\<close>

fun makedirs_at :: "node list \<Rightarrow> string list \<Rightarrow> exn + node list" where
  "makedirs_at es [] = Inr es"
| "makedirs_at es (c # cs) =
     (case find_child c es of
        None \<Rightarrow> Inr (es @ [Dir c (fresh_dirs cs)])
      | Some (File _ _) \<Rightarrow> Inl (if cs = [] then FileExistsError else NotADirectoryError)
      | Some (Dir n sub) \<Rightarrow>
          (case makedirs_at sub cs of
             Inl e \<Rightarrow> Inl e
           | Inr sub' \<Rightarrow> Inr (put_child (Dir n sub') es)))"

text \<open>
  Opening a path for writing and storing \<open>f old\<close>, where \<open>old\<close> is the previous content
  (\<open>None\<close> when the file is created): mode \<open>"w"\<close>/\<open>"wb"\<close> ignores \<open>old\<close>, mode \<open>"a"\<close>
  appends to it.
\<close>

fun store_at :: "node list \<Rightarrow> string list \<Rightarrow> (string option \<Rightarrow> string) \<Rightarrow> exn + node list" where
  "store_at es [] f = Inl FileNotFoundError"
| "store_at es (c # cs) f =
     (case find_child c es of
        None \<Rightarrow> if cs = [] then Inr (es @ [File c (f None)]) else Inl FileNotFoundError
      | Some (File n d) \<Rightarrow>
          if cs = [] then Inr (put_child (File n (f (Some d))) es) else Inl NotADirectoryError
      | Some (Dir n sub) \<Rightarrow>
          if cs = [] then Inl IsADirectoryError
          else (case store_at sub cs f of
                  Inl e \<Rightarrow> Inl e
                | Inr sub' \<Rightarrow> Inr (put_child (Dir n sub') es)))"

definition makedirs :: "node list \<Rightarrow> string \<Rightarrow> exn + node list" where
  "makedirs es p = (if p = [] then Inl FileNotFoundError else makedirs_at es (split_sep p))"

definition write_file :: "node list \<Rightarrow> string \<Rightarrow> string \<Rightarrow> exn + node list" where
  "write_file es p content = store_at es (split_sep p) (\<lambda>old. content)"

definition append_file :: "node list \<Rightarrow> string \<Rightarrow> string \<Rightarrow> exn + node list" where
  "append_file es p text =
     store_at es (split_sep p) (\<lambda>old. (case old of None \<Rightarrow> [] | Some d \<Rightarrow> d) @ text)"

definition read_file :: "node list \<Rightarrow> string \<Rightarrow> exn + string" where
  "read_file es p =
     (case lookup es (split_sep p) of
        None \<Rightarrow> Inl FileNotFoundError
      | Some (Dir _ _) \<Rightarrow> Inl IsADirectoryError
      | Some (File _ d) \<Rightarrow> Inr d)"

definition path_exists :: "node list \<Rightarrow> string \<Rightarrow> bool" where
  "path_exists es p = (lookup es (split_sep p) \<noteq> None)"

definition path_isdir :: "node list \<Rightarrow> string \<Rightarrow> bool" where
  "path_isdir es p = (case lookup es (split_sep p) of Some (Dir _ _) \<Rightarrow> True | _ \<Rightarrow> False)"

definition path_isfile :: "node list \<Rightarrow> string \<Rightarrow> bool" where
  "path_isfile es p = (case lookup es (split_sep p) of Some (File _ _) \<Rightarrow> True | _ \<Rightarrow> False)"

text \<open>
  \<open>os.path.getsize\<close>. The tree does not record the size of a directory entry; the server
  asks for the size of names that \<open>os.walk\<close> reports as files only.
\<close>

definition getsize :: "node list \<Rightarrow> string \<Rightarrow> exn + nat" where
  "getsize es p =
     (case lookup es (split_sep p) of
        None \<Rightarrow> Inl FileNotFoundError
      | Some (Dir _ _) \<Rightarrow> Inr 0
      | Some (File _ d) \<Rightarrow> Inr (length d))"

definition listdir :: "node list \<Rightarrow> string \<Rightarrow> exn + string list" where
  "listdir es p =
     (case lookup es (split_sep p) of
        None \<Rightarrow> Inl FileNotFoundError
      | Some (File _ _) \<Rightarrow> Inl NotADirectoryError
      | Some (Dir _ cs) \<Rightarrow> Inr (map name_of cs))"

text \<open>
  \<open>os.walk\<close>, top down: the directory's own triple \<open>(root, dirs, files)\<close> first, then
  the walks of its subdirectories in order. A start that is no directory yields nothing.
\<close>

fun walk_node :: "string \<Rightarrow> node \<Rightarrow> (string \<times> string list \<times> string list) list" where
  "walk_node here (File n d) = []"
| "walk_node here (Dir n cs) =
     (here, map name_of (filter is_dir cs), map name_of (filter (\<lambda>c. \<not> is_dir c) cs))
     # concat (map (\<lambda>c. walk_node (path_join here (name_of c)) c) cs)"

definition walk :: "node list \<Rightarrow> string \<Rightarrow> (string \<times> string list \<times> string list) list" where
  "walk es start = (case lookup es (split_sep start) of None \<Rightarrow> [] | Some n \<Rightarrow> walk_node start n)"

section \<open>The server's world: the tree and the clock\<close>

text \<open>
  \<open>datetime.now()\<close> is read many times in one request. The world holds the readings to
  come as a sequence and counts how many have been taken.
\<close>

record world =
  fs :: "node list"
  clock :: "nat \<Rightarrow> datetime"
  ticks :: nat

definition datetime_now :: "world \<Rightarrow> datetime \<times> world" where
  "datetime_now w = (clock w (ticks w), w\<lparr>ticks := Suc (ticks w)\<rparr>)"

definition IMAGE_DIR :: string where
  "IMAGE_DIR = ''images''"

definition METADATA_DIR :: string where
  "METADATA_DIR = ''metadata''"

definition LOGS_DIR :: string where
  "LOGS_DIR = ''logs''"

text \<open>The tree right after start-up: the three directories exist and are empty.\<close>

definition initial_fs :: "node list" where
  "initial_fs = [Dir IMAGE_DIR [], Dir METADATA_DIR [], Dir LOGS_DIR []]"

section \<open>JSON values and the json library\<close>

datatype json =
    JNull
  | JBool bool
  | JInt int
  | JFloat rat
  | JStr string
  | JArr "json list"
  | JObj "(string \<times> json) list"

text \<open>
  \<open>json.dumps\<close> and \<open>json.loads\<close> belong to the standard library; the server is modelled
  over any pair of them.
\<close>

record json_codec =
  dumps :: "json \<Rightarrow> string"
  loads :: "string \<Rightarrow> exn + json"

text \<open>\<open>d[k] = v\<close> on a dict kept in insertion order.\<close>

fun dict_set :: "('k \<times> 'v) list \<Rightarrow> 'k \<Rightarrow> 'v \<Rightarrow> ('k \<times> 'v) list" where
  "dict_set [] k v = [(k, v)]"
| "dict_set ((k', v') # kvs) k v =
     (if k' = k then (k, v) # kvs else (k', v') # dict_set kvs k v)"

definition json_opt_str :: "string option \<Rightarrow> json" where
  "json_opt_str x = (case x of None \<Rightarrow> JNull | Some s \<Rightarrow> JStr s)"

definition json_opt_float :: "rat option \<Rightarrow> json" where
  "json_opt_float x = (case x of None \<Rightarrow> JNull | Some q \<Rightarrow> JFloat q)"

text \<open>Python's truth value of an \<open>Optional[str]\<close>: \<open>None\<close> and the empty string are false.\<close>

definition truthy :: "string option \<Rightarrow> bool" where
  "truthy x = (case x of None \<Rightarrow> False | Some s \<Rightarrow> s \<noteq> [])"

section \<open>Upload: path allocation, metadata, log\<close>

record upload_file =
  filename :: string
  content :: string
  content_type :: "string option"

text \<open>The \<open>detail\<close> of an \<open>HTTPException\<close>: a fixed text, or \<open>"Upload failed: " + str(e)\<close>.\<close>

datatype detail = Text string | UploadFailed exn

text \<open>
  A request ends in a response, in an \<open>HTTPException\<close> raised by the handler, or in an
  exception the handler does not catch.
\<close>

datatype http_error = HTTPException nat detail | Unhandled exn

definition get_timestamped_path ::
  "string option \<Rightarrow> world \<Rightarrow> (exn + string \<times> string \<times> string) \<times> world" where
  "get_timestamped_path flight_id w =
     (let (now, w1) = datetime_now w;
          date_folder = strftime_date now;
          flight_folder =
            (if truthy flight_id then ''flight_'' @ the flight_id
             else ''flight_'' @ strftime_compact now);
          full_path = path_join (path_join IMAGE_DIR date_folder) flight_folder
      in case makedirs (fs w1) full_path of
           Inl e \<Rightarrow> (Inl e, w1)
         | Inr fs' \<Rightarrow> (Inr (full_path, date_folder, flight_folder), w1\<lparr>fs := fs'\<rparr>))"

definition generate_filename :: "string \<Rightarrow> world \<Rightarrow> string \<times> world" where
  "generate_filename original_filename w =
     (let (now, w1) = datetime_now w;
          s = strftime_micro now;
          timestamp = take (length s - 3) s;
          ext = snd (splitext original_filename)
      in (timestamp @ ext, w1))"

text \<open>
  The path of the metadata file of an image path, as \<open>save_metadata\<close> and \<open>get_metadata\<close>
  both compute it: two \<open>str.replace\<close> calls on the whole path string.
\<close>

definition metadata_file_of :: "string \<Rightarrow> string" where
  "metadata_file_of image_path =
     str_replace (str_replace image_path IMAGE_DIR METADATA_DIR)
       (snd (splitext image_path)) ''.json''"

definition save_metadata ::
  "json_codec \<Rightarrow> string \<Rightarrow> (string \<times> json) list \<Rightarrow> world
     \<Rightarrow> (exn + string \<times> (string \<times> json) list) \<times> world" where
  "save_metadata J image_path metadata w =
     (let metadata_file = metadata_file_of image_path
      in case makedirs (fs w) (dirname metadata_file) of
           Inl e \<Rightarrow> (Inl e, w)
         | Inr fs1 \<Rightarrow>
             (let (now, w1) = datetime_now (w\<lparr>fs := fs1\<rparr>);
                  m1 = dict_set metadata ''server_timestamp'' (JStr (isoformat now));
                  m2 = dict_set m1 ''image_path'' (JStr image_path);
                  m3 = dict_set m2 ''metadata_file'' (JStr metadata_file)
              in case write_file (fs w1) metadata_file (dumps J (JObj m3)) of
                   Inl e \<Rightarrow> (Inl e, w1)
                 | Inr fs2 \<Rightarrow> (Inr (metadata_file, m3), w1\<lparr>fs := fs2\<rparr>)))"

definition log_file_of :: "datetime \<Rightarrow> string" where
  "log_file_of now = path_join LOGS_DIR (''uploads_'' @ strftime_date now @ ''.log'')"

definition log_line :: "datetime \<Rightarrow> string option \<Rightarrow> string \<Rightarrow> string" where
  "log_line now flight_id fname =
     isoformat now @ '' | Flight: '' @ (if truthy flight_id then the flight_id else ''N/A'')
       @ '' | Image: '' @ fname @ [CHR 0x0A]"

text \<open>
  \<open>log_upload\<close> opens the log for appending and reads the clock again only once the file
  is open: when the open fails, the second reading is not taken.
\<close>

definition log_upload :: "string \<Rightarrow> string option \<Rightarrow> world \<Rightarrow> (exn + unit) \<times> world" where
  "log_upload fname flight_id w =
     (let (now1, w1) = datetime_now w;
          log_file = log_file_of now1;
          (now2, w2) = datetime_now w1
      in case append_file (fs w1) log_file (log_line now2 flight_id fname) of
           Inl e \<Rightarrow> (Inl e, w1)
         | Inr fs' \<Rightarrow> (Inr (), w2\<lparr>fs := fs'\<rparr>))"

text \<open>What the body of the \<open>try\<close> block has in hand when it reaches its last statement.\<close>

record stored =
  st_filename :: string
  st_image_path :: string
  st_metadata_file :: string
  st_flight_folder :: string
  st_upload_timestamp :: string

text \<open>
  The body of the \<open>try\<close> block, which \<open>upload_image\<close> and the loop of \<open>upload_batch\<close>
  share statement by statement; they differ in the two dict entries \<open>camera_settings\<close>
  and \<open>notes\<close>, passed as \<open>extra\<close> (an error when \<open>json.loads\<close> raises while the dict is
  built, after the clock has been read for \<open>upload_timestamp\<close>).
\<close>

definition try_body ::
  "json_codec \<Rightarrow> upload_file \<Rightarrow> string option \<Rightarrow> rat option \<Rightarrow> rat option \<Rightarrow> rat option
     \<Rightarrow> (exn + (string \<times> json) list) \<Rightarrow> world \<Rightarrow> (exn + stored) \<times> world" where
  "try_body J file flight_id gps_latitude gps_longitude altitude extra w =
     (case get_timestamped_path flight_id w of
        (Inl e, w1) \<Rightarrow> (Inl e, w1)
      | (Inr (full_path, date_folder, flight_folder), w1) \<Rightarrow>
          (let (fname, w2) = generate_filename (filename file) w1;
               image_path = path_join full_path fname
           in case write_file (fs w2) image_path (content file) of
                Inl e \<Rightarrow> (Inl e, w2)
              | Inr fs3 \<Rightarrow>
                  (let (now, w4) = datetime_now (w2\<lparr>fs := fs3\<rparr>)
                   in case extra of
                        Inl e \<Rightarrow> (Inl e, w4)
                      | Inr extras \<Rightarrow>
                          (let metadata =
                                 [(''original_filename'', JStr (filename file)),
                                  (''stored_filename'', JStr fname),
                                  (''upload_timestamp'', JStr (isoformat now)),
                                  (''flight_id'', json_opt_str flight_id),
                                  (''gps'', JObj [(''latitude'', json_opt_float gps_latitude),
                                                  (''longitude'', json_opt_float gps_longitude)]),
                                  (''altitude'', json_opt_float altitude)]
                                 @ extras @
                                 [(''file_size'', JInt (int (length (content file)))),
                                  (''content_type'', json_opt_str (content_type file))]
                           in case save_metadata J image_path metadata w4 of
                                (Inl e, w5) \<Rightarrow> (Inl e, w5)
                              | (Inr (metadata_file, _), w5) \<Rightarrow>
                                  (case log_upload fname flight_id w5 of
                                     (Inl e, w6) \<Rightarrow> (Inl e, w6)
                                   | (Inr _, w6) \<Rightarrow>
                                       (Inr \<lparr>st_filename = fname,
                                             st_image_path = image_path,
                                             st_metadata_file = metadata_file,
                                             st_flight_folder = flight_folder,
                                             st_upload_timestamp = isoformat now\<rparr>, w6))))))"

record upload_response =
  resp_filename :: string
  resp_status :: string
  resp_path :: string
  resp_metadata_file :: string
  resp_flight_id :: string
  resp_uploaded_at :: string

definition camera_and_notes ::
  "json_codec \<Rightarrow> string option \<Rightarrow> string option \<Rightarrow> exn + (string \<times> json) list" where
  "camera_and_notes J camera_settings notes =
     (if truthy camera_settings
      then (case loads J (the camera_settings) of
              Inl e \<Rightarrow> Inl e
            | Inr v \<Rightarrow> Inr [(''camera_settings'', v), (''notes'', json_opt_str notes)])
      else Inr [(''camera_settings'', JNull), (''notes'', json_opt_str notes)])"

definition upload_image ::
  "json_codec \<Rightarrow> upload_file \<Rightarrow> string option \<Rightarrow> rat option \<Rightarrow> rat option \<Rightarrow> rat option
     \<Rightarrow> string option \<Rightarrow> string option \<Rightarrow> world \<Rightarrow> (http_error + upload_response) \<times> world" where
  "upload_image J file flight_id gps_latitude gps_longitude altitude camera_settings notes w =
     (case try_body J file flight_id gps_latitude gps_longitude altitude
             (camera_and_notes J camera_settings notes) w of
        (Inl e, w') \<Rightarrow> (Inl (HTTPException 500 (UploadFailed e)), w')
      | (Inr s, w') \<Rightarrow>
          (Inr \<lparr>resp_filename = st_filename s,
                resp_status = ''success'',
                resp_path = st_image_path s,
                resp_metadata_file = st_metadata_file s,
                resp_flight_id = (if truthy flight_id then the flight_id else st_flight_folder s),
                resp_uploaded_at = st_upload_timestamp s\<rparr>, w'))"

text \<open>One entry of \<open>results\<close> in \<open>upload_batch\<close>.\<close>

datatype entry_result =
    Success string string
  | Error string exn

fun status :: "entry_result \<Rightarrow> string" where
  "status (Success fname path) = ''success''"
| "status (Error fname e) = ''error''"

record batch_response =
  total :: nat
  successful :: nat
  failed :: nat
  results :: "entry_result list"

text \<open>
  The body of the loop of \<open>upload_batch\<close>: the \<open>try\<close> block for one file and its
  \<open>except\<close> clause, giving the entry that is appended to \<open>results\<close>.
\<close>

definition batch_entry ::
  "json_codec \<Rightarrow> upload_file \<Rightarrow> string option \<Rightarrow> rat option \<Rightarrow> rat option \<Rightarrow> rat option
     \<Rightarrow> world \<Rightarrow> entry_result \<times> world" where
  "batch_entry J file flight_id gps_latitude gps_longitude altitude w =
     (case try_body J file flight_id gps_latitude gps_longitude altitude (Inr []) w of
        (Inl e, w') \<Rightarrow> (Error (filename file) e, w')
      | (Inr s, w') \<Rightarrow> (Success (st_filename s) (st_image_path s), w'))"

text \<open>The loop itself: \<open>results\<close> grows by one entry per file, in order.\<close>

fun batch_loop ::
  "json_codec \<Rightarrow> upload_file list \<Rightarrow> string option \<Rightarrow> rat option \<Rightarrow> rat option \<Rightarrow> rat option
     \<Rightarrow> entry_result list \<Rightarrow> world \<Rightarrow> entry_result list \<times> world" where
  "batch_loop J [] flight_id gps_latitude gps_longitude altitude rs w = (rs, w)"
| "batch_loop J (file # files) flight_id gps_latitude gps_longitude altitude rs w =
     (let (r, w') = batch_entry J file flight_id gps_latitude gps_longitude altitude w
      in batch_loop J files flight_id gps_latitude gps_longitude altitude (rs @ [r]) w')"

definition upload_batch ::
  "json_codec \<Rightarrow> upload_file list \<Rightarrow> string option \<Rightarrow> rat option \<Rightarrow> rat option \<Rightarrow> rat option
     \<Rightarrow> world \<Rightarrow> batch_response \<times> world" where
  "upload_batch J files flight_id gps_latitude gps_longitude altitude w =
     (let (rs, w') = batch_loop J files flight_id gps_latitude gps_longitude altitude [] w
      in (\<lparr>total = length files,
           successful = length (filter (\<lambda>r. status r = ''success'') rs),
           failed = length (filter (\<lambda>r. status r = ''error'') rs),
           results = rs\<rparr>, w'))"

section \<open>Listing, retrieval, statistics\<close>

record image_entry =
  img_filename :: string
  img_path :: string
  img_flight_id :: "string option"

datatype listing =
    Simple "string list"
  | Full nat "image_entry list"

text \<open>
  The loop over one date directory. \<open>os.listdir(flight_path)\<close> runs only when
  \<open>os.path.isdir(flight_path)\<close> holds.
\<close>

definition images_of_flight :: "node list \<Rightarrow> string \<Rightarrow> string \<Rightarrow> string \<Rightarrow> image_entry list" where
  "images_of_flight es date date_path flight_folder =
     (let flight_path = path_join date_path flight_folder
      in if path_isdir es flight_path
         then (case listdir es flight_path of
                 Inl e \<Rightarrow> []
               | Inr names \<Rightarrow>
                   map (\<lambda>fname.
                          \<lparr>img_filename = fname,
                           img_path = date @ ''/'' @ flight_folder @ ''/'' @ fname,
                           img_flight_id = Some (str_replace flight_folder ''flight_'' [])\<rparr>)
                     (filter (\<lambda>fname. path_isfile es (path_join flight_path fname)) names))
         else [])"

definition images_of_date ::
  "node list \<Rightarrow> string option \<Rightarrow> string \<Rightarrow> http_error + image_entry list" where
  "images_of_date es flight_id date =
     (let date_path = path_join IMAGE_DIR date
      in if \<not> path_exists es date_path
         then Inl (HTTPException 404 (Text (''No images found for date: '' @ date)))
         else (case listdir es date_path of
                 Inl e \<Rightarrow> Inl (Unhandled e)
               | Inr folders \<Rightarrow>
                   Inr (concat (map (images_of_flight es date date_path)
                          (filter (\<lambda>flight_folder.
                                     \<not> (truthy flight_id
                                        \<and> ''flight_'' @ the flight_id \<noteq> flight_folder))
                             folders)))))"

text \<open>The loop over \<open>os.walk(IMAGE_DIR)\<close>.\<close>

definition image_of_walk :: "string \<Rightarrow> string \<Rightarrow> image_entry" where
  "image_of_walk dir fname =
     (let rel_path = relpath (path_join dir fname) IMAGE_DIR;
          flight_folder = basename (dirname rel_path)
      in \<lparr>img_filename = fname,
          img_path = str_replace rel_path [CHR 0x5C] ''/'',
          img_flight_id =
            (if contains ''flight_'' flight_folder
             then Some (str_replace flight_folder ''flight_'' [])
             else None)\<rparr>)"

definition images_of_walk :: "node list \<Rightarrow> image_entry list" where
  "images_of_walk es =
     concat (map (\<lambda>(dir, dirs, files). map (image_of_walk dir) files) (walk es IMAGE_DIR))"

definition list_images ::
  "string option \<Rightarrow> string option \<Rightarrow> bool \<Rightarrow> world \<Rightarrow> http_error + listing" where
  "list_images flight_id date simple w =
     (case (if truthy date then images_of_date (fs w) flight_id (the date)
            else Inr (images_of_walk (fs w))) of
        Inl e \<Rightarrow> Inl e
      | Inr images_list \<Rightarrow>
          if images_list = [] then Inl (HTTPException 404 (Text ''No images found''))
          else if simple then Inr (Simple (map img_filename images_list))
          else Inr (Full (length images_list) images_list))"





record flight_entry =
  fl_date :: string
  fl_flight_id :: string
  fl_path :: string
  fl_image_count :: nat

definition flights_of_date :: "node list \<Rightarrow> string \<Rightarrow> flight_entry list" where
  "flights_of_date es date_folder =
     (let date_path = path_join IMAGE_DIR date_folder
      in if path_isdir es date_path
         then (case listdir es date_path of
                 Inl e \<Rightarrow> []
               | Inr folders \<Rightarrow>
                   map (\<lambda>flight_folder.
                          (let flight_path = path_join date_path flight_folder
                           in \<lparr>fl_date = date_folder,
                               fl_flight_id = str_replace flight_folder ''flight_'' [],
                               fl_path = date_folder @ ''/'' @ flight_folder,
                               fl_image_count =
                                 (case listdir es flight_path of
                                    Inl e \<Rightarrow> 0
                                  | Inr names \<Rightarrow>
                                      length (filter (\<lambda>f. path_isfile es (path_join flight_path f))
                                                names))\<rparr>))
                     (filter (\<lambda>flight_folder.
                                path_isdir es (path_join date_path flight_folder)
                                \<and> contains ''flight_'' flight_folder)
                        folders))
         else [])"

definition list_flights :: "world \<Rightarrow> http_error + nat \<times> flight_entry list" where
  "list_flights w =
     (case listdir (fs w) IMAGE_DIR of
        Inl e \<Rightarrow> Inl (Unhandled e)
      | Inr date_folders \<Rightarrow>
          (let flights = concat (map (flights_of_date (fs w)) date_folders)
           in if flights = [] then Inl (HTTPException 404 (Text ''No flights found''))
              else Inr (length flights, flights)))"

text \<open>\<open>flights[flight_id] += 1\<close>, after \<open>flights[flight_id] = 0\<close> for a new key.\<close>

definition count_flight :: "(string \<times> nat) list \<Rightarrow> string \<Rightarrow> (string \<times> nat) list" where
  "count_flight flights flight_id =
     (case map_of flights flight_id of
        None \<Rightarrow> dict_set flights flight_id 1
      | Some n \<Rightarrow> dict_set flights flight_id (n + 1))"

text \<open>
  The loop of \<open>get_stats\<close> over the files of the walk, on the three counters
  \<open>(total_images, total_size, flights)\<close>.
\<close>

fun stats_loop ::
  "node list \<Rightarrow> (string \<times> string) list \<Rightarrow> nat \<times> nat \<times> (string \<times> nat) list
     \<Rightarrow> exn + nat \<times> nat \<times> (string \<times> nat) list" where
  "stats_loop es [] acc = Inr acc"
| "stats_loop es ((dir, fname) # rest) (total_images, total_size, flights) =
     (let file_path = path_join dir fname
      in case getsize es file_path of
           Inl e \<Rightarrow> Inl e
         | Inr sz \<Rightarrow>
             (let flight_folder = basename (dirname file_path)
              in stats_loop es rest
                   (total_images + 1, total_size + sz,
                    if contains ''flight_'' flight_folder
                    then count_flight flights (str_replace flight_folder ''flight_'' [])
                    else flights)))"

definition walk_files :: "node list \<Rightarrow> (string \<times> string) list" where
  "walk_files es =
     concat (map (\<lambda>(dir, dirs, files). map (\<lambda>fname. (dir, fname)) files) (walk es IMAGE_DIR))"

text \<open>
  \<open>round(total_size / 1024**3, 2)\<close>: the quotient is exact in binary floating point, and
  Python rounds it to the nearest hundredth, ties to even. The float is given as the
  decimal fraction it stands for.
\<close>

definition round_gb :: "nat \<Rightarrow> rat" where
  "round_gb total_size =
     (let d = 1024 ^ 3;
          q = (total_size * 100) div d;
          r = (total_size * 100) mod d;
          h = (if 2 * r < d then q else if d < 2 * r then q + 1
               else if even q then q else q + 1)
      in of_nat h / 100)"

record stats =
  total_images :: nat
  total_size_gb :: rat
  total_flights :: nat
  images_per_flight :: "(string \<times> nat) list"
  timestamp :: string

definition get_stats :: "world \<Rightarrow> (http_error + stats) \<times> world" where
  "get_stats w =
     (case stats_loop (fs w) (walk_files (fs w)) (0, 0, []) of
        Inl e \<Rightarrow> (Inl (Unhandled e), w)
      | Inr (n, total_size, flights) \<Rightarrow>
          (let (now, w1) = datetime_now w
           in (Inr \<lparr>total_images = n,
                    total_size_gb = round_gb total_size,
                    total_flights = length flights,
                    images_per_flight = flights,
                    timestamp = isoformat now\<rparr>, w1)))"

section \<open>Concrete requests\<close>

text \<open>
  A codec for running the server on concrete requests. None of the results below depends
  on the text \<open>json.dumps\<close> writes; \<open>loads\<close> accepts the text \<open>null\<close> and rejects every
  other text used below, as \<open>json.loads\<close> does.
\<close>

definition codec0 :: json_codec where
  "codec0 =
     \<lparr>dumps = (\<lambda>v. ''{}''),
      loads = (\<lambda>s. if s = ''null'' then Inr JNull else Inl JSONDecodeError)\<rparr>"

text \<open>2024-01-02 03:04:05.123456, and the server right after start-up with a clock that
  stays within that microsecond.\<close>

definition T0 :: datetime where
  "T0 = \<lparr>year = 2024, month = 1, day = 2, hour = 3, minute = 4, second = 5,
          microsecond = 123456\<rparr>"

definition w0 :: world where
  "w0 = \<lparr>fs = initial_fs, clock = (\<lambda>n. T0), ticks = 0\<rparr>"

definition a_jpg :: upload_file where
  "a_jpg = \<lparr>filename = ''a.jpg'', content = ''abc'', content_type = Some ''image/jpeg''\<rparr>"

section \<open>Observations and well-formed trees\<close>

text \<open>The content of the regular file at a component path, if there is one.\<close>

definition file_at :: "node list \<Rightarrow> string list \<Rightarrow> string option" where
  "file_at es cs = (case lookup es cs of Some (File _ d) \<Rightarrow> Some d | _ \<Rightarrow> None)"

definition dir_at :: "node list \<Rightarrow> string list \<Rightarrow> bool" where
  "dir_at es cs = (case lookup es cs of Some (Dir _ _) \<Rightarrow> True | _ \<Rightarrow> False)"

text \<open>
  A name a directory entry can have: not empty, without a separator, and neither \<open>.\<close>
  nor \<open>..\<close>. In a well-formed tree every entry has such a name and the names within one
  directory differ.
\<close>

definition ordinary :: "string \<Rightarrow> bool" where
  "ordinary n = (n \<noteq> [] \<and> sep \<notin> set n \<and> n \<noteq> ''.'' \<and> n \<noteq> ''..'')"

fun wf_node :: "node \<Rightarrow> bool" where
  "wf_node (File n d) = ordinary n"
| "wf_node (Dir n cs) = (ordinary n \<and> distinct (map name_of cs) \<and> list_all wf_node cs)"

definition wf_fs :: "node list \<Rightarrow> bool" where
  "wf_fs es = (distinct (map name_of es) \<and> list_all wf_node es)"

text \<open>The regular files below a node, and the bytes they hold.\<close>

fun count_files :: "node \<Rightarrow> nat" where
  "count_files (File n d) = 1"
| "count_files (Dir n cs) = sum_list (map count_files cs)"

fun total_bytes :: "node \<Rightarrow> nat" where
  "total_bytes (File n d) = length d"
| "total_bytes (Dir n cs) = sum_list (map total_bytes cs)"

section \<open>The paths of an upload\<close>










text \<open>The \<open>(root, filename)\<close> pairs that the walk of one node goes through.\<close>

definition walk_node_files :: "string \<Rightarrow> node \<Rightarrow> (string \<times> string) list" where
  "walk_node_files here n =
     concat (map (\<lambda>(dir, dirs, files). map (\<lambda>fname. (dir, fname)) files) (walk_node here n))"

text \<open>A measure of the tree below the image root; nothing when the root is no directory.\<close>

definition under_image_root :: "(node \<Rightarrow> nat) \<Rightarrow> node list \<Rightarrow> nat" where
  "under_image_root m es =
     (case lookup es [IMAGE_DIR] of Some (Dir n cs) \<Rightarrow> m (Dir n cs) | _ \<Rightarrow> 0)"

text \<open>Whether a walked file lies directly in a directory whose name holds \<open>flight_\<close>.\<close>

definition in_flight_dir :: "string \<times> string \<Rightarrow> bool" where
  "in_flight_dir x = contains ''flight_'' (basename (fst x))"

text \<open>
  What the loop of \<open>get_stats\<close> adds for one walked file: the size it reads, and whether it
  counts the file for a flight.
\<close>

definition size_at :: "node list \<Rightarrow> string \<times> string \<Rightarrow> nat" where
  "size_at es x = (case getsize es (path_join (fst x) (snd x)) of Inr k \<Rightarrow> k | Inl e \<Rightarrow> 0)"

definition counted :: "string \<times> string \<Rightarrow> bool" where
  "counted x = contains ''flight_'' (basename (dirname (path_join (fst x) (snd x))))"

definition flight_key :: "string \<times> string \<Rightarrow> string" where
  "flight_key x = str_replace (basename (dirname (path_join (fst x) (snd x)))) ''flight_'' []"

text \<open>
  A store with files at several depths below the image root, one of them directly in it and
  one in a directory that is no flight directory.
\<close>

definition w_mixed :: world where
  "w_mixed =
     \<lparr>fs = [Dir ''images''
              [File ''top.jpg'' ''x'',
               Dir ''2024-01-01''
                 [Dir ''flight_A'' [File ''a.jpg'' ''abc'', File ''b.jpg'' ''de''],
                  Dir ''misc'' [File ''c.jpg'' ''fgh'']]],
            Dir ''metadata'' [],
            Dir ''logs'' []],
      clock = (\<lambda>n. T0), ticks = 0\<rparr>"

text \<open>What \<open>list_images\<close> has collected when it tests \<open>images_list\<close> for emptiness.\<close>

definition images_list_of :: "string option \<Rightarrow> string option \<Rightarrow> world \<Rightarrow> http_error + image_entry list" where
  "images_list_of flight_id date w =
     (if truthy date then images_of_date (fs w) flight_id (the date)
      else Inr (images_of_walk (fs w)))"

text \<open>
  A burst: the clock advances by one microsecond per reading, so that the twelve readings of
  two uploads all fall into the millisecond 03:04:05.123.
\<close>

definition w_burst :: world where
  "w_burst = \<lparr>fs = initial_fs, clock = (\<lambda>n. T0\<lparr>microsecond := 123000 + n\<rparr>), ticks = 0\<rparr>"

definition d_jpg :: upload_file where
  "d_jpg = \<lparr>filename = ''d.jpg'', content = ''wxyz'', content_type = Some ''image/jpeg''\<rparr>"

text \<open>An upload whose original filename has no extension.\<close>

definition photo :: upload_file where
  "photo = \<lparr>filename = ''photo'', content = ''abc'', content_type = Some ''image/jpeg''\<rparr>"

text \<open>
  The scenario of two uploads to group \<open>X\<close>, of 10 and 20 bytes, at 03:04:05.123456 and one
  millisecond later: each upload reads the clock six times.
\<close>

definition T1 :: datetime where
  "T1 = T0\<lparr>microsecond := 124456\<rparr>"

definition w_scenario :: world where
  "w_scenario = \<lparr>fs = initial_fs, clock = (\<lambda>n. if n < 6 then T0 else T1), ticks = 0\<rparr>"

definition scenario :: "string \<Rightarrow> string \<Rightarrow> world" where
  "scenario A B =
     snd (upload_image codec0
            \<lparr>filename = ''b.png'', content = B, content_type = Some ''image/png''\<rparr>
            (Some ''X'') None None None None None
            (snd (upload_image codec0
                    \<lparr>filename = ''a.jpg'', content = A, content_type = Some ''image/jpeg''\<rparr>
                    (Some ''X'') None None None None None w_scenario)))"





text \<open>
  A store like \<open>w_mixed\<close> whose files hold \<open>2^27\<close> bytes together: an eighth of
  \<open>1024^3\<close>, halfway between 0.12 and 0.13.
\<close>

definition big_content :: string where
  "big_content = replicate 134217728 CHR ''x''"

definition w_big :: world where
  "w_big =
     \<lparr>fs = [Dir ''images''
              [File ''top.tif'' big_content,
               Dir ''2024-01-01''
                 [Dir ''flight_A'' [File ''a.jpg'' [], File ''b.jpg'' []],
                  Dir ''misc'' [File ''c.jpg'' []]]],
            Dir ''metadata'' [],
            Dir ''logs'' []],
      clock = (\<lambda>n. T0), ticks = 0\<rparr>"

section \<open>Evaluation on concrete requests\<close>

lemmas fmt_defs =
  digit_def pad2_def pad4_def pad6_def strftime_date_def strftime_compact_def
  strftime_micro_def isoformat_def

lemmas str_defs =
  startswith_def str_replace_def lower_def lower_char_def sep_def path_join_def
  basename_def dirname_def splitext_def relpath_def

lemmas fs_defs =
  makedirs_def write_file_def append_file_def read_file_def path_exists_def path_isdir_def
  path_isfile_def getsize_def listdir_def walk_def IMAGE_DIR_def METADATA_DIR_def
  LOGS_DIR_def initial_fs_def

lemmas up_defs =
  datetime_now_def json_opt_str_def json_opt_float_def truthy_def get_timestamped_path_def
  generate_filename_def metadata_file_of_def save_metadata_def log_file_of_def log_line_def
  log_upload_def try_body_def camera_and_notes_def upload_image_def batch_entry_def
  upload_batch_def

lemmas ls_defs =
  images_of_flight_def images_of_date_def image_of_walk_def images_of_walk_def
  list_images_def

lemma T0_fmt:
  "strftime_date T0 = ''2024-01-02''"
  "strftime_compact T0 = ''20240102_030405''"
  "strftime_micro T0 = ''20240102_030405_123456''"
  "isoformat T0 = ''2024-01-02T03:04:05.123456''"
  by (simp_all add: fmt_defs T0_def)


section \<open>The file tree: what a write changes\<close>

lemma find_child_name: "find_child c es = Some n \<Longrightarrow> name_of n = c"
  by (induction es) (auto split: if_splits)

lemma find_child_put: "find_child c (put_child n es) = (if c = name_of n then Some n else find_child c es)"
  by (induction es) auto

lemma find_child_snoc: "find_child c (es @ [n]) = (case find_child c es of Some m \<Rightarrow> Some m | None \<Rightarrow> if name_of n = c then Some n else None)"
  by (induction es) auto

lemma store_at_file_at:
  "store_at es cs f = Inr es' \<Longrightarrow> file_at es' cs' = (if cs' = cs then Some (f (file_at es cs)) else file_at es cs')"
proof (induction es cs f arbitrary: es' cs' rule: store_at.induct)
  case (1 es f)
  then show ?case by simp
next
  case (2 es c cs f)
  show ?case
  proof (cases cs')
    case Nil
    then show ?thesis by (simp add: file_at_def)
  next
    case (Cons c' cs'')
    show ?thesis
    proof (cases "find_child c es")
      case None
      with 2 Cons show ?thesis
        by (auto simp: file_at_def find_child_snoc split: if_splits option.splits node.splits)
    next
      case (Some n)
      note fc = find_child_name[OF Some]
      show ?thesis
      proof (cases n)
        case (File n' d)
        with 2 Cons Some fc show ?thesis
          by (auto simp: file_at_def find_child_put split: if_splits option.splits node.splits)
      next
        case (Dir n' sub)
        show ?thesis
        proof (cases "cs = []")
          case True
          with 2 Dir Some show ?thesis by simp
        next
          case False
          with 2 Dir Some obtain sub' where s: "store_at sub cs f = Inr sub'" and e: "es' = put_child (Dir n' sub') es"
            by (auto split: sum.splits)
          have ih: "\<And>q. file_at sub' q = (if q = cs then Some (f (file_at sub cs)) else file_at sub q)"
            using 2(1)[OF Some Dir False s] .
          from Dir fc have n: "n' = c" by simp
          show ?thesis
          proof (cases "c' = c")
            case True
            show ?thesis
            proof (cases "cs'' = []")
              case True
              with \<open>c' = c\<close> Cons e n Some Dir False show ?thesis
                by (simp add: file_at_def find_child_put)
            next
              case f2: False
              have "file_at es' cs' = file_at sub' cs''"
                using Cons e n True f2 by (simp add: file_at_def find_child_put)
              moreover have "file_at es cs' = file_at sub cs''"
                using Cons Some Dir n True f2 by (simp add: file_at_def)
              moreover have "file_at es (c # cs) = file_at sub cs"
                using Some Dir False by (simp add: file_at_def)
              ultimately show ?thesis using ih[of cs''] Cons True by simp
            qed
          next
            case False
            with Cons e n show ?thesis
              by (simp add: file_at_def find_child_put)
          qed
        qed
      qed
    qed
  qed
qed

lemma file_at_fresh_dirs: "file_at (fresh_dirs cs) q = None"
proof (induction cs arbitrary: q)
  case Nil
  then show ?case by (cases q) (simp_all add: file_at_def)
next
  case (Cons c cs)
  show ?case
  proof (cases q)
    case Nil
    then show ?thesis by (simp add: file_at_def)
  next
    case (Cons c' q')
    with Cons.IH[of q'] show ?thesis
      by (auto simp: file_at_def split: option.splits node.splits)
  qed
qed

lemma file_at_Cons:
  "file_at es (c # cs) =
     (case find_child c es of
        None \<Rightarrow> None
      | Some (File n d) \<Rightarrow> if cs = [] then Some d else None
      | Some (Dir n sub) \<Rightarrow> if cs = [] then None else file_at sub cs)"
  by (auto simp: file_at_def split: option.splits node.splits)

lemma file_at_Nil: "file_at es [] = None"
  by (simp add: file_at_def)

lemma makedirs_at_file_at:
  "makedirs_at es cs = Inr es' \<Longrightarrow> file_at es' q = file_at es q"
proof (induction es cs arbitrary: es' q rule: makedirs_at.induct)
  case (1 es)
  then show ?case by simp
next
  case (2 es c cs)
  show ?case
  proof (cases q)
    case Nil
    then show ?thesis by (simp add: file_at_Nil)
  next
    case (Cons c' q')
    show ?thesis
    proof (cases "find_child c es")
      case None
      with 2(2) have e: "es' = es @ [Dir c (fresh_dirs cs)]" by simp
      show ?thesis using None Cons file_at_fresh_dirs[of cs q']
        by (auto simp: e file_at_Cons find_child_snoc split: option.splits node.splits)
    next
      case (Some n)
      note fc = find_child_name[OF Some]
      show ?thesis
      proof (cases n)
        case (File n' d)
        with 2(2) Some show ?thesis by simp
      next
        case (Dir n' sub)
        with 2(2) Some obtain sub' where s: "makedirs_at sub cs = Inr sub'"
          and e: "es' = put_child (Dir n' sub') es"
          by (auto split: sum.splits)
        have ih: "file_at sub' q' = file_at sub q'"
          using 2(1)[OF Some Dir s] .
        from Dir fc have n: "n' = c" by simp
        have q_nil: "q' = [] \<Longrightarrow> file_at es' q = file_at es q"
          using Cons e n Some Dir by (auto simp: file_at_Cons find_child_put)
        show ?thesis
        proof (cases "q' = []")
          case True
          then show ?thesis by (rule q_nil)
        next
          case False
          then show ?thesis using Cons e n Some Dir ih
            by (auto simp: file_at_Cons find_child_put)
        qed
      qed
    qed
  qed
qed

lemma split_sep_not_Nil: "split_sep s \<noteq> []"
  by (induction s) (auto split: list.splits)



lemma split_sep_no_sep: "sep \<notin> set s \<Longrightarrow> split_sep s = [s]"
  by (induction s) auto

lemma split_sep_append: "split_sep (a @ sep # b) = split_sep a @ split_sep b"
proof (induction a)
  case Nil
  show ?case by simp
next
  case (Cons c a)
  obtain w ws where sp: "split_sep a = w # ws"
    using split_sep_not_Nil[of a] by (cases "split_sep a") auto
  from Cons sp show ?case by (auto split: list.splits)
qed

section \<open>Paths the upload builds\<close>



lemma write_file_file_at:
  "write_file es p c = Inr es' \<Longrightarrow>
     file_at es' q = (if q = split_sep p then Some c else file_at es q)"
  unfolding write_file_def by (drule store_at_file_at[where cs' = q]) simp

lemma append_file_file_at:
  "append_file es p t = Inr es' \<Longrightarrow>
     file_at es' q =
       (if q = split_sep p
        then Some ((case file_at es (split_sep p) of None \<Rightarrow> [] | Some d \<Rightarrow> d) @ t)
        else file_at es q)"
  unfolding append_file_def by (drule store_at_file_at[where cs' = q]) simp

lemma makedirs_file_at: "makedirs es p = Inr es' \<Longrightarrow> file_at es' q = file_at es q"
  unfolding makedirs_def by (auto split: if_splits dest: makedirs_at_file_at)









lemma flight_no_lead_sep: "\<not> startswith (''flight_'' @ x) [sep]"
  by (simp add: startswith_def sep_def)





section \<open>The steps of an upload\<close>



lemma save_metadata_cases:
  "save_metadata J p md w =
     (case makedirs (fs w) (dirname (metadata_file_of p)) of
        Inl e \<Rightarrow> (Inl e, w)
      | Inr fs1 \<Rightarrow>
          (let m3 = dict_set (dict_set (dict_set md ''server_timestamp''
                       (JStr (isoformat (clock w (ticks w))))) ''image_path'' (JStr p))
                       ''metadata_file'' (JStr (metadata_file_of p))
           in case write_file fs1 (metadata_file_of p) (dumps J (JObj m3)) of
                Inl e \<Rightarrow> (Inl e, w\<lparr>fs := fs1, ticks := Suc (ticks w)\<rparr>)
              | Inr fs2 \<Rightarrow> (Inr (metadata_file_of p, m3), w\<lparr>fs := fs2, ticks := Suc (ticks w)\<rparr>)))"
  by (simp add: save_metadata_def datetime_now_def Let_def split: sum.splits)

lemma log_upload_cases:
  "log_upload fname fid w =
     (case append_file (fs w) (log_file_of (clock w (ticks w)))
             (log_line (clock w (Suc (ticks w))) fid fname) of
        Inl e \<Rightarrow> (Inl e, w\<lparr>ticks := Suc (ticks w)\<rparr>)
      | Inr fs' \<Rightarrow> (Inr (), w\<lparr>fs := fs', ticks := Suc (Suc (ticks w))\<rparr>))"
  by (simp add: log_upload_def datetime_now_def Let_def split: sum.splits)

lemma save_metadata_files:
  assumes "save_metadata J p md w = (r, w')"
  shows "clock w' = clock w"
    and "\<And>m d. r = Inr (m, d) \<Longrightarrow> m = metadata_file_of p \<and> ticks w' = Suc (ticks w)
            \<and> (\<exists>text. \<forall>q. file_at (fs w') q =
                  (if q = split_sep m then Some text else file_at (fs w) q))"
    and "\<And>e. r = Inl e \<Longrightarrow> \<forall>q. file_at (fs w') q = file_at (fs w) q"
  using assms
  by (auto simp: save_metadata_cases Let_def makedirs_file_at write_file_file_at
      split: sum.splits)

lemma log_upload_files:
  assumes "log_upload fname fid w = (r, w')"
  shows "clock w' = clock w"
    and "\<And>u. r = Inr u \<Longrightarrow> ticks w' = Suc (Suc (ticks w))
            \<and> (\<forall>q. file_at (fs w') q =
                  (if q = split_sep (log_file_of (clock w (ticks w)))
                   then Some ((case file_at (fs w) (split_sep (log_file_of (clock w (ticks w)))) of
                                 None \<Rightarrow> [] | Some d \<Rightarrow> d)
                              @ log_line (clock w (Suc (ticks w))) fid fname)
                   else file_at (fs w) q))"
    and "\<And>e. r = Inl e \<Longrightarrow> fs w' = fs w"
  using assms
  by (auto simp: log_upload_cases append_file_file_at split: sum.splits)











section \<open>Upload and retrieval\<close>




lemma upload_a_jpg_F1:
  "upload_image codec0 a_jpg (Some ''F1'') None None None None None w0 =
     (Inr \<lparr>resp_filename = ''20240102_030405_123.jpg'',
           resp_status = ''success'',
           resp_path = ''images/2024-01-02/flight_F1/20240102_030405_123.jpg'',
           resp_metadata_file = ''metadata/2024-01-02/flight_F1/20240102_030405_123.json'',
           resp_flight_id = ''F1'',
           resp_uploaded_at = ''2024-01-02T03:04:05.123456''\<rparr>,
      \<lparr>fs = [Dir ''images''
               [Dir ''2024-01-02''
                 [Dir ''flight_F1'' [File ''20240102_030405_123.jpg'' ''abc'']]],
             Dir ''metadata''
               [Dir ''2024-01-02''
                 [Dir ''flight_F1'' [File ''20240102_030405_123.json'' ''{}'']]],
             Dir ''logs''
               [File ''uploads_2024-01-02.log''
                 (''2024-01-02T03:04:05.123456 | Flight: F1 | Image: 20240102_030405_123.jpg''
                  @ [CHR 0x0A])]],
        clock = (\<lambda>n. T0), ticks = 6\<rparr>)"
  by (simp add: str_defs fs_defs up_defs T0_fmt codec0_def w0_def a_jpg_def Let_def)



section \<open>Failures of a single upload\<close>










section \<open>The batch loop\<close>






lemma status_cases: "status r = ''success'' \<or> status r = ''error''"
  by (cases r) simp_all






section \<open>The walk over a well-formed tree\<close>

lemma walk_node_files_File: "walk_node_files here (File n d) = []"
  by (simp add: walk_node_files_def)

lemma walk_node_files_Dir:
  "walk_node_files here (Dir n cs) =
     map (\<lambda>f. (here, f)) (map name_of (filter (\<lambda>c. \<not> is_dir c) cs))
     @ concat (map (\<lambda>c. walk_node_files (path_join here (name_of c)) c) cs)"
proof -
  have "concat (map g (concat (map h xs))) = concat (map (\<lambda>c. concat (map g (h c))) xs)"
    for g :: "'b \<Rightarrow> 'c list" and h :: "'a \<Rightarrow> 'b list" and xs
    by (induction xs) simp_all
  then show ?thesis
    by (simp add: walk_node_files_def comp_def)
qed

lemma find_child_distinct:
  "distinct (map name_of cs) \<Longrightarrow> c \<in> set cs \<Longrightarrow> find_child (name_of c) cs = Some c"
  by (induction cs) auto

lemma lookup_snoc:
  "lookup es ps = Some (Dir n cs) \<Longrightarrow> lookup es (ps @ [c]) = find_child c cs"
proof (induction es ps rule: lookup.induct)
  case (1 es)
  then show ?case by simp
next
  case (2 es p ps)
  then show ?case
    by (cases ps) (auto split: option.splits node.splits)
qed

lemma path_join_ordinary:
  "here \<noteq> [] \<Longrightarrow> last here \<noteq> sep \<Longrightarrow> ordinary c \<Longrightarrow> path_join here c = here @ sep # c"
  by (cases c) (auto simp: path_join_def ordinary_def startswith_def)

lemma split_sep_join:
  "here \<noteq> [] \<Longrightarrow> last here \<noteq> sep \<Longrightarrow> ordinary c \<Longrightarrow>
     split_sep (path_join here c) = split_sep here @ [c]"
  by (simp add: path_join_ordinary split_sep_append split_sep_no_sep ordinary_def)

lemma last_join:
  assumes "here \<noteq> []" "last here \<noteq> sep" "ordinary c"
  shows "path_join here c \<noteq> [] \<and> last (path_join here c) \<noteq> sep"
proof -
  have "c \<noteq> []" "sep \<notin> set c" using assms(3) by (simp_all add: ordinary_def)
  then have "last c \<noteq> sep" by (metis last_in_set)
  then show ?thesis
    using \<open>c \<noteq> []\<close> by (simp add: path_join_ordinary[OF assms])
qed

lemma dirname_join:
  assumes "here \<noteq> []" "last here \<noteq> sep" "ordinary c"
  shows "dirname (path_join here c) = here"
proof -
  have c: "sep \<notin> set (rev c)" using assms(3) by (simp add: ordinary_def)
  have dw: "dropWhile (\<lambda>x. x \<noteq> sep) (rev c @ sep # rev here) = sep # rev here"
    using c by (auto simp: dropWhile_append3)
  have hd: "hd (rev here) \<noteq> sep"
    using assms(1,2) by (simp add: hd_rev)
  have dr: "dropWhile (\<lambda>x. x = sep) (rev here) = rev here"
    using assms(1) hd by (cases "rev here") auto
  have ex: "\<exists>x\<in>set here. x \<noteq> sep"
    using assms(1,2) last_in_set by blast
  show ?thesis
    unfolding path_join_ordinary[OF assms] dirname_def
    using dw dr ex by (simp add: Let_def)
qed

text \<open>
  What the walk knows about the node it is at: the path string it has built leads to that
  node, and the node is well formed.
\<close>

lemma walk_child:
  assumes "here \<noteq> []" "last here \<noteq> sep" "lookup es (split_sep here) = Some (Dir n cs)"
    "wf_node (Dir n cs)" "c \<in> set cs"
  shows "path_join here (name_of c) \<noteq> [] \<and> last (path_join here (name_of c)) \<noteq> sep
       \<and> lookup es (split_sep (path_join here (name_of c))) = Some c \<and> wf_node c
       \<and> dirname (path_join here (name_of c)) = here"
proof -
  have wf: "wf_node c" and d: "distinct (map name_of cs)"
    using assms(4,5) by (auto simp: list_all_iff)
  have o: "ordinary (name_of c)"
    using wf by (cases c) simp_all
  have "lookup es (split_sep (path_join here (name_of c))) = find_child (name_of c) cs"
    using lookup_snoc[OF assms(3)] by (simp add: split_sep_join[OF assms(1,2) o])
  then have "lookup es (split_sep (path_join here (name_of c))) = Some c"
    using find_child_distinct[OF d assms(5)] by simp
  then show ?thesis
    using last_join[OF assms(1,2) o] wf dirname_join[OF assms(1,2) o] by simp
qed

lemma walk_node_files_ok:
  assumes "here \<noteq> []" "last here \<noteq> sep" "lookup es (split_sep here) = Some nd" "wf_node nd"
    "(d, f) \<in> set (walk_node_files here nd)"
  shows "(\<exists>bytes. lookup es (split_sep (path_join d f)) = Some (File f bytes))
       \<and> dirname (path_join d f) = d"
  using assms
proof (induction here nd rule: walk_node.induct)
  case (1 here n b)
  then show ?case by (simp add: walk_node_files_File)
next
  case (2 here n cs)
  from 2(6) consider
    (own) c where "c \<in> set cs" "\<not> is_dir c" "d = here" "f = name_of c"
    | (sub) c where "c \<in> set cs" "(d, f) \<in> set (walk_node_files (path_join here (name_of c)) c)"
    by (auto simp: walk_node_files_Dir)
  then show ?case
  proof cases
    case own
    from walk_child[OF 2(2,3,4,5) own(1)] own show ?thesis
      by (cases c) auto
  next
    case sub
    from walk_child[OF 2(2,3,4,5) sub(1)] have
      "path_join here (name_of c) \<noteq> []" "last (path_join here (name_of c)) \<noteq> sep"
      "lookup es (split_sep (path_join here (name_of c))) = Some c" "wf_node c"
      by simp_all
    from 2(1)[OF sub(1) this sub(2)] show ?thesis .
  qed
qed

lemma getsize_walked:
  assumes "here \<noteq> []" "last here \<noteq> sep" "lookup es (split_sep here) = Some nd" "wf_node nd"
    "(d, f) \<in> set (walk_node_files here nd)"
  shows "\<exists>k. getsize es (path_join d f) = Inr k"
  using walk_node_files_ok[OF assms] by (auto simp: getsize_def)

lemma walk_files_node:
  "walk_files es =
     (case lookup es [IMAGE_DIR] of None \<Rightarrow> [] | Some n \<Rightarrow> walk_node_files IMAGE_DIR n)"
  by (simp add: walk_files_def walk_def walk_node_files_def IMAGE_DIR_def sep_def
      split: option.splits)

lemma wf_fs_lookup_top:
  assumes "wf_fs es" "lookup es [c] = Some n"
  shows "wf_node n"
proof -
  have "find_child c es = Some n" using assms(2) by (simp split: option.splits)
  then have "n \<in> set es" by (induction es) (auto split: if_splits)
  then show ?thesis using assms(1) by (simp add: wf_fs_def list_all_iff)
qed

lemma walk_files_ok:
  assumes "wf_fs es" "(d, f) \<in> set (walk_files es)"
  shows "(\<exists>bytes. lookup es (split_sep (path_join d f)) = Some (File f bytes))
       \<and> dirname (path_join d f) = d"
proof (cases "lookup es [IMAGE_DIR]")
  case None
  with assms(2) show ?thesis by (simp add: walk_files_node)
next
  case (Some n)
  have s: "split_sep IMAGE_DIR = [IMAGE_DIR]"
    by (simp add: IMAGE_DIR_def sep_def)
  have m: "(d, f) \<in> set (walk_node_files IMAGE_DIR n)"
    using assms(2) Some by (simp add: walk_files_node)
  show ?thesis
  proof (rule walk_node_files_ok[OF _ _ _ _ m])
    show "IMAGE_DIR \<noteq> []" by (simp add: IMAGE_DIR_def)
    show "last IMAGE_DIR \<noteq> sep" by (simp add: IMAGE_DIR_def sep_def)
    show "lookup es (split_sep IMAGE_DIR) = Some n" using Some s by simp
    show "wf_node n" by (rule wf_fs_lookup_top[OF assms(1) Some])
  qed
qed

section \<open>The loop of get_stats\<close>

lemma count_flight_sum: "sum_list (map snd (count_flight fl k)) = Suc (sum_list (map snd fl))"
proof (induction fl)
  case Nil
  show ?case by (simp add: count_flight_def)
next
  case (Cons kv fl)
  obtain k' v' where kv: "kv = (k', v')" by (cases kv)
  show ?case
  proof (cases "k' = k")
    case True
    then show ?thesis by (simp add: kv count_flight_def)
  next
    case False
    with Cons show ?thesis
      by (simp add: kv count_flight_def split: option.splits)
  qed
qed

lemma dict_set_keys:
  "map fst (dict_set fl k v) = (if k \<in> set (map fst fl) then map fst fl else map fst fl @ [k])"
  by (induction fl) force+

lemma count_flight_distinct:
  "distinct (map fst fl) \<Longrightarrow> distinct (map fst (count_flight fl k))"
  by (auto simp: count_flight_def dict_set_keys split: option.splits)

lemma dict_set_key_set: "fst ` set (dict_set fl k v) = insert k (fst ` set fl)"
proof -
  have "fst ` set (dict_set fl k v) = set (map fst (dict_set fl k v))" by simp
  also have "\<dots> = insert k (set (map fst fl))" unfolding dict_set_keys by auto
  finally show ?thesis by simp
qed

lemma count_flight_keys: "fst ` set (count_flight fl k) = insert k (fst ` set fl)"
  by (simp add: count_flight_def dict_set_key_set split: option.splits)

lemma stats_loop_result:
  assumes "\<forall>x \<in> set xs. \<exists>k. getsize es (path_join (fst x) (snd x)) = Inr k"
  shows "\<exists>fl'. stats_loop es xs (n, sz, fl) =
             Inr (n + length xs, sz + sum_list (map (size_at es) xs), fl')
           \<and> sum_list (map snd fl') = sum_list (map snd fl) + length (filter counted xs)
           \<and> (distinct (map fst fl) \<longrightarrow> distinct (map fst fl'))
           \<and> fst ` set fl' = fst ` set fl \<union> flight_key ` {x \<in> set xs. counted x}"
  using assms
proof (induction xs arbitrary: n sz fl)
  case Nil
  show ?case by simp
next
  case (Cons x xs)
  obtain d f where x: "x = (d, f)" by (cases x)
  from Cons.prems obtain k where k: "getsize es (path_join d f) = Inr k"
    by (auto simp: x)
  have rest: "\<forall>x \<in> set xs. \<exists>k. getsize es (path_join (fst x) (snd x)) = Inr k"
    using Cons.prems by simp
  let ?fl = "if counted x
             then count_flight fl (str_replace (basename (dirname (path_join d f))) ''flight_'' [])
             else fl"
  from Cons.IH[OF rest, of "n + 1" "sz + k" ?fl] obtain fl' where
    r: "stats_loop es xs (n + 1, sz + k, ?fl) =
          Inr (n + 1 + length xs, sz + k + sum_list (map (size_at es) xs), fl')"
    and s: "sum_list (map snd fl') = sum_list (map snd ?fl) + length (filter counted xs)"
    and t: "distinct (map fst ?fl) \<longrightarrow> distinct (map fst fl')"
    and u: "fst ` set fl' = fst ` set ?fl \<union> flight_key ` {x \<in> set xs. counted x}"
    by blast
  have step: "stats_loop es (x # xs) (n, sz, fl) = stats_loop es xs (n + 1, sz + k, ?fl)"
    by (simp add: x k counted_def Let_def)
  have sz: "size_at es x = k" by (simp add: size_at_def x k)
  have key: "flight_key x = str_replace (basename (dirname (path_join d f))) ''flight_'' []"
    by (simp add: flight_key_def x)
  have 1: "sum_list (map snd fl') =
      sum_list (map snd fl) + length (filter counted (x # xs))"
    using s by (simp add: count_flight_sum)
  have 2: "distinct (map fst fl) \<longrightarrow> distinct (map fst fl')"
    using t by (simp add: count_flight_distinct)
  have 3: "fst ` set fl' = fst ` set fl \<union> flight_key ` {y \<in> set (x # xs). counted y}"
  proof (cases "counted x")
    case True
    then have "fst ` set fl' =
        insert (flight_key x) (fst ` set fl) \<union> flight_key ` {y \<in> set xs. counted y}"
      using u by (simp add: count_flight_keys key[symmetric])
    with True show ?thesis by auto
  next
    case False
    with u show ?thesis by auto
  qed
  show ?case
    using r 1 2 3 by (simp add: step sz)
qed

lemma sum_list_split_dirs:
  "sum_list (map g cs) =
     sum_list (map g (filter (\<lambda>c. \<not> is_dir c) cs))
     + sum_list (map (\<lambda>c. if is_dir c then g c else 0) cs)"
  for g :: "node \<Rightarrow> nat"
  by (induction cs) simp_all

lemma count_files_not_dir: "\<not> is_dir c \<Longrightarrow> count_files c = 1"
  by (cases c) simp_all

lemma length_walk_node_files:
  "length (walk_node_files here nd) = (if is_dir nd then count_files nd else 0)"
proof (induction here nd rule: walk_node.induct)
  case (1 here n d)
  show ?case by (simp add: walk_node_files_File)
next
  case (2 here n cs)
  have sub: "map (\<lambda>c. length (walk_node_files (path_join here (name_of c)) c)) cs =
      map (\<lambda>c. if is_dir c then count_files c else 0) cs"
    using 2 by simp
  have own: "sum_list (map count_files (filter (\<lambda>c. \<not> is_dir c) cs)) =
      length (filter (\<lambda>c. \<not> is_dir c) cs)"
    by (induction cs) (simp_all add: count_files_not_dir)
  show ?case
    using sum_list_split_dirs[of count_files cs] own
    by (simp add: walk_node_files_Dir length_concat comp_def sub)
qed

lemma bytes_walk_node_files:
  assumes "here \<noteq> []" "last here \<noteq> sep" "lookup es (split_sep here) = Some nd" "wf_node nd"
  shows "sum_list (map (size_at es) (walk_node_files here nd)) =
           (if is_dir nd then total_bytes nd else 0)"
  using assms
proof (induction here nd rule: walk_node.induct)
  case (1 here n d)
  show ?case by (simp add: walk_node_files_File)
next
  case (2 here n cs)
  have sub: "sum_list (map (size_at es) (walk_node_files (path_join here (name_of c)) c)) =
      (if is_dir c then total_bytes c else 0)" if c: "c \<in> set cs" for c
  proof -
    from walk_child[OF 2(2,3,4,5) c] have
      "path_join here (name_of c) \<noteq> []" "last (path_join here (name_of c)) \<noteq> sep"
      "lookup es (split_sep (path_join here (name_of c))) = Some c" "wf_node c"
      by simp_all
    from 2(1)[OF c this] show ?thesis .
  qed
  have own1: "size_at es (here, name_of c) = total_bytes c"
    if c: "c \<in> set cs" and f: "\<not> is_dir c" for c
    using walk_child[OF 2(2,3,4,5) c] f
    by (cases c) (simp_all add: size_at_def getsize_def)
  have own: "sum_list (map (size_at es)
        (map (\<lambda>f. (here, f)) (map name_of (filter (\<lambda>c. \<not> is_dir c) cs)))) =
      sum_list (map total_bytes (filter (\<lambda>c. \<not> is_dir c) cs))"
  proof -
    have "map (\<lambda>c. size_at es (here, name_of c)) (filter (\<lambda>c. \<not> is_dir c) cs) =
        map total_bytes (filter (\<lambda>c. \<not> is_dir c) cs)"
      by (rule map_cong[OF refl]) (use own1 in auto)
    then have "sum_list (map (\<lambda>c. size_at es (here, name_of c)) (filter (\<lambda>c. \<not> is_dir c) cs)) =
        sum_list (map total_bytes (filter (\<lambda>c. \<not> is_dir c) cs))"
      by (rule arg_cong)
    then show ?thesis by (simp only: map_map comp_def)
  qed
  have subs: "sum_list (map (size_at es)
        (concat (map (\<lambda>c. walk_node_files (path_join here (name_of c)) c) cs))) =
      sum_list (map (\<lambda>c. if is_dir c then total_bytes c else 0) cs)"
  proof -
    have c: "sum_list (map h (concat (map k xs))) = sum_list (map (\<lambda>c. sum_list (map h (k c))) xs)"
      for h :: "string \<times> string \<Rightarrow> nat" and k :: "node \<Rightarrow> (string \<times> string) list" and xs
      by (induction xs) simp_all
    have "map (\<lambda>c. sum_list (map (size_at es) (walk_node_files (path_join here (name_of c)) c))) cs
        = map (\<lambda>c. if is_dir c then total_bytes c else 0) cs"
      by (rule map_cong[OF refl]) (use sub in auto)
    then show ?thesis unfolding c by (rule arg_cong)
  qed
  show ?case
    using sum_list_split_dirs[of total_bytes cs] own subs
    by (simp add: walk_node_files_Dir)
qed

lemma length_walk_files: "length (walk_files es) = under_image_root count_files es"
  by (auto simp: walk_files_node under_image_root_def length_walk_node_files
      split: option.splits node.splits)

lemma bytes_walk_files:
  assumes "wf_fs es"
  shows "sum_list (map (size_at es) (walk_files es)) = under_image_root total_bytes es"
proof (cases "lookup es [IMAGE_DIR]")
  case None
  then show ?thesis by (simp add: walk_files_node under_image_root_def)
next
  case (Some n)
  have s: "split_sep IMAGE_DIR = [IMAGE_DIR]"
    by (simp add: IMAGE_DIR_def sep_def)
  have "sum_list (map (size_at es) (walk_node_files IMAGE_DIR n)) =
      (if is_dir n then total_bytes n else 0)"
  proof (rule bytes_walk_node_files)
    show "IMAGE_DIR \<noteq> []" by (simp add: IMAGE_DIR_def)
    show "last IMAGE_DIR \<noteq> sep" by (simp add: IMAGE_DIR_def sep_def)
    show "lookup es (split_sep IMAGE_DIR) = Some n" using Some s by simp
    show "wf_node n" by (rule wf_fs_lookup_top[OF assms Some])
  qed
  with Some show ?thesis
    by (cases n) (simp_all add: walk_files_node under_image_root_def)
qed

lemma counted_walked:
  assumes "wf_fs es" "x \<in> set (walk_files es)"
  shows "counted x = in_flight_dir x"
    and "flight_key x = str_replace (basename (fst x)) ''flight_'' []"
    and "\<exists>k. getsize es (path_join (fst x) (snd x)) = Inr k"
proof -
  obtain d f where x: "x = (d, f)" by (cases x)
  from walk_files_ok[OF assms(1)] assms(2) have
    ok: "(\<exists>bytes. lookup es (split_sep (path_join d f)) = Some (File f bytes))
         \<and> dirname (path_join d f) = d"
    unfolding x by blast
  show "counted x = in_flight_dir x"
    using ok by (simp add: counted_def in_flight_dir_def x)
  show "flight_key x = str_replace (basename (fst x)) ''flight_'' []"
    using ok by (simp add: flight_key_def x)
  show "\<exists>k. getsize es (path_join (fst x) (snd x)) = Inr k"
    using ok by (auto simp: getsize_def x)
qed

lemma filter_all_length: "(length (filter P xs) = length xs) = (\<forall>x \<in> set xs. P x)"
proof (induction xs)
  case Nil
  show ?case by simp
next
  case (Cons x xs)
  have le: "length (filter P xs) \<le> length xs" by simp
  show ?case
  proof (cases "P x")
    case True
    with Cons show ?thesis by simp
  next
    case False
    have "length (filter P xs) \<noteq> Suc (length xs)" using le by linarith
    with False show ?thesis by simp
  qed
qed

section \<open>Statistics\<close>

lemma get_stats_result:
  assumes "wf_fs (fs w)"
  shows "\<exists>fl. get_stats w =
           (Inr \<lparr>total_images = length (walk_files (fs w)),
                 total_size_gb = round_gb (under_image_root total_bytes (fs w)),
                 total_flights = length fl,
                 images_per_flight = fl,
                 timestamp = isoformat (clock w (ticks w))\<rparr>,
            w\<lparr>ticks := Suc (ticks w)\<rparr>)
         \<and> sum_list (map snd fl) = length (filter in_flight_dir (walk_files (fs w)))
         \<and> distinct (map fst fl)
         \<and> fst ` set fl =
             (\<lambda>x. str_replace (basename (fst x)) ''flight_'' [])
               ` {x \<in> set (walk_files (fs w)). in_flight_dir x}"
proof -
  let ?xs = "walk_files (fs w)"
  have ok: "\<forall>x \<in> set ?xs. \<exists>k. getsize (fs w) (path_join (fst x) (snd x)) = Inr k"
    using counted_walked(3)[OF assms] by blast
  from stats_loop_result[OF ok, of 0 0 "[]"] obtain fl where
    r: "stats_loop (fs w) ?xs (0, 0, []) =
          Inr (length ?xs, sum_list (map (size_at (fs w)) ?xs), fl)"
    and s: "sum_list (map snd fl) = length (filter counted ?xs)"
    and d: "distinct (map fst fl)"
    and k: "fst ` set fl = flight_key ` {x \<in> set ?xs. counted x}"
    by auto
  have f: "filter counted ?xs = filter in_flight_dir ?xs"
    by (rule filter_cong[OF refl]) (simp add: counted_walked(1)[OF assms])
  have k': "flight_key ` {x \<in> set ?xs. counted x} =
      (\<lambda>x. str_replace (basename (fst x)) ''flight_'' []) ` {x \<in> set ?xs. in_flight_dir x}"
    using counted_walked(1,2)[OF assms] by (auto simp: image_iff)
  have g: "get_stats w =
           (Inr \<lparr>total_images = length ?xs,
                 total_size_gb = round_gb (under_image_root total_bytes (fs w)),
                 total_flights = length fl,
                 images_per_flight = fl,
                 timestamp = isoformat (clock w (ticks w))\<rparr>,
            w\<lparr>ticks := Suc (ticks w)\<rparr>)"
    by (simp add: get_stats_def r datetime_now_def bytes_walk_files[OF assms])
  show ?thesis
    using g s d k by (auto simp: f k')
qed

lemma get_stats_mixed:
  "get_stats w_mixed =
     (Inr \<lparr>total_images = 4, total_size_gb = 0, total_flights = 1,
           images_per_flight = [(''A'', 2)],
           timestamp = ''2024-01-02T03:04:05.123456''\<rparr>,
      w_mixed\<lparr>ticks := 1\<rparr>)"
  by (simp add: str_defs fs_defs get_stats_def walk_files_def count_flight_def round_gb_def
      datetime_now_def T0_fmt w_mixed_def Let_def)

lemma length_big_content: "length big_content = 134217728"
  by (simp add: big_content_def)

lemma round_gb_nearest:
  "\<exists>k::nat. round_gb n = of_nat k / 100
     \<and> \<bar>round_gb n - of_nat n / 1024 ^ 3\<bar> \<le> 1 / 200
     \<and> (\<bar>round_gb n - of_nat n / 1024 ^ 3\<bar> = 1 / 200 \<longrightarrow> even k)"
proof -
  define d :: nat where "d = 1024 ^ 3"
  define q where "q = (n * 100) div d"
  define r where "r = (n * 100) mod d"
  define h where "h = (if 2 * r < d then q else if d < 2 * r then q + 1
               else if even q then q else q + 1)"
  have dpos: "0 < d" by (simp add: d_def)
  have rd: "r < d" using dpos by (simp add: r_def)
  have dec: "n * 100 = q * d + r" by (simp add: q_def r_def)
  have rg: "round_gb n = of_nat h / 100"
    by (simp add: round_gb_def Let_def h_def q_def r_def d_def)
  have dr: "(of_nat d :: rat) = 1024 ^ 3" by (simp add: d_def)
  have "(of_nat n :: rat) * 100 = of_nat q * of_nat d + of_nat r"
    using arg_cong[OF dec, of "of_nat :: nat \<Rightarrow> rat"] by simp
  then have quot: "(of_nat n :: rat) / of_nat d = (of_nat q + of_nat r / of_nat d) / 100"
    using dpos by (simp add: field_simps)
  have diff: "round_gb n - of_nat n / 1024 ^ 3 =
      (of_nat h - of_nat q - of_nat r / of_nat d) / 100"
    unfolding rg dr[symmetric] quot by (simp add: field_simps)
  have dq: "(0::rat) < of_nat d" using dpos by simp
  define x where "x = (of_nat r :: rat) / of_nat d"
  have x0: "0 \<le> x" by (simp add: x_def)
  consider (lo) "2 * r < d" | (hi) "d < 2 * r" | (tie) "2 * r = d" by linarith
  then have "\<bar>(of_nat h :: rat) - of_nat q - x\<bar> \<le> 1 / 2
     \<and> (\<bar>(of_nat h :: rat) - of_nat q - x\<bar> = 1 / 2 \<longrightarrow> even h)"
  proof cases
    case lo
    then have h: "h = q" by (simp add: h_def)
    from lo have "(2::rat) * of_nat r < of_nat d"
      by (metis of_nat_less_iff of_nat_mult of_nat_numeral)
    then have 1: "x < 1 / 2" using dq by (simp add: x_def field_simps)
    have "\<bar>(of_nat h :: rat) - of_nat q - x\<bar> = x" using x0 by (simp add: h)
    with 1 show ?thesis by linarith
  next
    case hi
    then have h: "h = q + 1" by (simp add: h_def)
    from hi have "(of_nat d :: rat) < 2 * of_nat r"
      by (metis of_nat_less_iff of_nat_mult of_nat_numeral)
    then have 1: "1 / 2 < x" using dq by (simp add: x_def field_simps)
    from rd have "(of_nat r :: rat) < of_nat d" by simp
    then have 2: "x < 1" using dq by (simp add: x_def field_simps)
    have "\<bar>(of_nat h :: rat) - of_nat q - x\<bar> = 1 - x" using 2 by (simp add: h)
    with 1 show ?thesis by linarith
  next
    case tie
    then have h: "h = (if even q then q else q + 1)" by (simp add: h_def)
    then have ev: "even h" by simp
    from tie have "(2::rat) * of_nat r = of_nat d"
      by (metis of_nat_mult of_nat_numeral)
    then have e: "x = 1 / 2" using dq by (simp add: x_def field_simps)
    have "\<bar>(of_nat h :: rat) - of_nat q - x\<bar> = 1 / 2" by (simp add: h e)
    with ev show ?thesis by simp
  qed
  then have "\<bar>((of_nat h :: rat) - of_nat q - x) / 100\<bar> \<le> 1 / 200
     \<and> (\<bar>((of_nat h :: rat) - of_nat q - x) / 100\<bar> = 1 / 200 \<longrightarrow> even h)"
    by (simp add: abs_divide)
  then have "\<bar>round_gb n - of_nat n / 1024 ^ 3\<bar> \<le> 1 / 200
     \<and> (\<bar>round_gb n - of_nat n / 1024 ^ 3\<bar> = 1 / 200 \<longrightarrow> even h)"
    unfolding diff x_def .
  with rg show ?thesis by blast
qed

lemma get_stats_big:
  "get_stats w_big =
     (Inr \<lparr>total_images = 4, total_size_gb = 3 / 25, total_flights = 1,
           images_per_flight = [(''A'', 2)],
           timestamp = ''2024-01-02T03:04:05.123456''\<rparr>,
      w_big\<lparr>ticks := 1\<rparr>)"
  by (simp add: str_defs fs_defs get_stats_def walk_files_def count_flight_def round_gb_def
      datetime_now_def T0_fmt w_big_def length_big_content Let_def)


lemma bytes_big: "under_image_root total_bytes (fs w_big) = 134217728"
  by (simp add: under_image_root_def w_big_def IMAGE_DIR_def length_big_content)

text \<open>
  C10. The claim as stated: \<open>stats\<close> counts every regular file below the image root in
  \<open>totalImages\<close> and in \<open>totalSizeBytes\<close>. The answer of \<open>get_stats\<close> has no byte count:
  for the four files of 9 bytes below the image root it reports \<open>total_images = 4\<close> and,
  as the only size, \<open>total_size_gb = 0\<close>.
\<close>

theorem stats_answer_without_byte_total_counterexample:
  "under_image_root total_bytes (fs w_mixed) = 9
   \<and> fst (get_stats w_mixed) =
       Inr \<lparr>total_images = 4, total_size_gb = 0, total_flights = 1,
            images_per_flight = [(''A'', 2)],
            timestamp = ''2024-01-02T03:04:05.123456''\<rparr>
   \<and> total_size_gb (projr (fst (get_stats w_mixed))) \<noteq> 9"
proof -
  have "under_image_root total_bytes (fs w_mixed) = 9"
    by (simp add: under_image_root_def w_mixed_def IMAGE_DIR_def)
  then show ?thesis by (simp add: get_stats_mixed)
qed

text \<open>
  C10, amended. \<open>get_stats\<close> counts every regular file below the image root, at any depth,
  in \<open>total_images\<close>, and reports the bytes of these files only as \<open>total_size_gb\<close>: the
  hundredth nearest to the byte total divided by \<open>1024^3\<close>, the even one of two equally
  near. It counts a file for a flight only when the name of the directory the file lies in
  holds \<open>flight_\<close>. So the per-flight counts add up to at most \<open>total_images\<close>, and to
  exactly \<open>total_images\<close> when and only when every file lies directly in such a directory.
\<close>

theorem get_stats_counts_files_rounds_size:
  assumes "wf_fs (fs w)"
  shows "\<exists>s w'. get_stats w = (Inr s, w')
       \<and> total_images s = under_image_root count_files (fs w)
       \<and> total_images s = length (walk_files (fs w))
       \<and> (\<exists>k::nat. total_size_gb s = of_nat k / 100
            \<and> \<bar>total_size_gb s - of_nat (under_image_root total_bytes (fs w)) / 1024 ^ 3\<bar>
                \<le> 1 / 200
            \<and> (\<bar>total_size_gb s - of_nat (under_image_root total_bytes (fs w)) / 1024 ^ 3\<bar>
                  = 1 / 200 \<longrightarrow> even k))
       \<and> sum_list (map snd (images_per_flight s)) =
           length (filter in_flight_dir (walk_files (fs w)))
       \<and> fst ` set (images_per_flight s) =
           (\<lambda>x. str_replace (basename (fst x)) ''flight_'' [])
             ` {x \<in> set (walk_files (fs w)). in_flight_dir x}
       \<and> distinct (map fst (images_per_flight s))
       \<and> total_flights s = length (images_per_flight s)
       \<and> sum_list (map snd (images_per_flight s)) \<le> total_images s
       \<and> ((sum_list (map snd (images_per_flight s)) = total_images s)
            = (\<forall>x \<in> set (walk_files (fs w)). in_flight_dir x))"
proof -
  from get_stats_result[OF assms] obtain fl where
    g: "get_stats w =
           (Inr \<lparr>total_images = length (walk_files (fs w)),
                 total_size_gb = round_gb (under_image_root total_bytes (fs w)),
                 total_flights = length fl,
                 images_per_flight = fl,
                 timestamp = isoformat (clock w (ticks w))\<rparr>,
            w\<lparr>ticks := Suc (ticks w)\<rparr>)"
    and s: "sum_list (map snd fl) = length (filter in_flight_dir (walk_files (fs w)))"
    and d: "distinct (map fst fl)"
    and k: "fst ` set fl =
             (\<lambda>x. str_replace (basename (fst x)) ''flight_'' [])
               ` {x \<in> set (walk_files (fs w)). in_flight_dir x}"
    by blast
  have le: "length (filter in_flight_dir (walk_files (fs w))) \<le> length (walk_files (fs w))"
    by simp
  note r = round_gb_nearest[of "under_image_root total_bytes (fs w)"]
  show ?thesis
    unfolding g
    using s d k le r filter_all_length[of in_flight_dir "walk_files (fs w)"]
    by (simp add: length_walk_files)
qed

theorem get_stats_counts_files_rounds_size_witness:
  "wf_fs (fs w_big)
   \<and> get_stats w_big =
       (Inr \<lparr>total_images = 4, total_size_gb = 3 / 25, total_flights = 1,
             images_per_flight = [(''A'', 2)],
             timestamp = ''2024-01-02T03:04:05.123456''\<rparr>,
        w_big\<lparr>ticks := 1\<rparr>)
   \<and> under_image_root count_files (fs w_big) = 4
   \<and> under_image_root total_bytes (fs w_big) = 134217728
   \<and> \<bar>(3 / 25 :: rat) - 134217728 / 1024 ^ 3\<bar> = 1 / 200
   \<and> (\<exists>k::nat. (3 / 25 :: rat) = of_nat k / 100 \<and> even k)
   \<and> length (filter in_flight_dir (walk_files (fs w_big))) = 2
   \<and> \<not> (\<forall>x \<in> set (walk_files (fs w_big)). in_flight_dir x)"
proof -
  have h: "wf_fs (fs w_big)"
    by (simp add: wf_fs_def w_big_def ordinary_def sep_def)
  have t: "\<bar>(3 / 25 :: rat) - 134217728 / 1024 ^ 3\<bar> = 1 / 200"
    by simp
  from get_stats_counts_files_rounds_size[OF h] h t show ?thesis
    by (auto simp: get_stats_big bytes_big)
qed

section \<open>Empty results\<close>

lemma images_of_walk_empty: "(images_of_walk es = []) = (walk_files es = [])"
  by (auto simp: images_of_walk_def walk_files_def split_def)

lemma list_images_cases:
  "list_images fid date simple w =
     (case images_list_of fid date w of
        Inl e \<Rightarrow> Inl e
      | Inr images_list \<Rightarrow>
          if images_list = [] then Inl (HTTPException 404 (Text ''No images found''))
          else if simple then Inr (Simple (map img_filename images_list))
          else Inr (Full (length images_list) images_list))"
  by (simp add: list_images_def images_list_of_def)

lemma round_gb_0: "round_gb 0 = 0"
  by (simp add: round_gb_def Let_def)

lemma get_stats_of_empty_store:
  assumes "wf_fs (fs w)"
  shows "\<exists>s w'. get_stats w = (Inr s, w')
           \<and> (under_image_root count_files (fs w) = 0 \<longrightarrow>
                total_images s = 0 \<and> total_size_gb s = 0 \<and> total_flights s = 0
                \<and> images_per_flight s = [])"
proof -
  from get_stats_result[OF assms] obtain fl where
    gr: "get_stats w =
           (Inr \<lparr>total_images = length (walk_files (fs w)),
                 total_size_gb = round_gb (under_image_root total_bytes (fs w)),
                 total_flights = length fl,
                 images_per_flight = fl,
                 timestamp = isoformat (clock w (ticks w))\<rparr>,
            w\<lparr>ticks := Suc (ticks w)\<rparr>)"
    and kr: "fst ` set fl =
             (\<lambda>x. str_replace (basename (fst x)) ''flight_'' [])
               ` {x \<in> set (walk_files (fs w)). in_flight_dir x}"
    by blast
  have zero: "length (walk_files (fs w)) = 0
      \<and> round_gb (under_image_root total_bytes (fs w)) = 0 \<and> length fl = 0 \<and> fl = []"
    if e: "under_image_root count_files (fs w) = 0"
  proof -
    have w: "walk_files (fs w) = []" using e length_walk_files[of "fs w"] by simp
    have "sum_list (map (size_at (fs w)) (walk_files (fs w))) = 0" by (simp add: w)
    then have "under_image_root total_bytes (fs w) = 0"
      using bytes_walk_files[OF assms] by simp
    moreover have "fl = []" using kr by (simp add: w)
    ultimately show ?thesis using w by (simp add: round_gb_0)
  qed
  show ?thesis unfolding gr using zero by simp
qed

lemma list_images_of_empty_store:
  assumes "under_image_root count_files (fs w) = 0"
  shows "list_images fid None simple w = Inl (HTTPException 404 (Text ''No images found''))"
proof -
  have "walk_files (fs w) = []" using assms length_walk_files[of "fs w"] by simp
  then show ?thesis
    by (simp add: list_images_cases images_list_of_def truthy_def images_of_walk_empty)
qed

lemma list_images_answers:
  "(\<exists>text. list_images fid date simple w = Inl (HTTPException 404 (Text text)))
   \<or> (truthy date \<and> path_isfile (fs w) (path_join IMAGE_DIR (the date))
       \<and> list_images fid date simple w = Inl (Unhandled NotADirectoryError))
   \<or> (\<exists>names. list_images fid date simple w = Inr (Simple names) \<and> names \<noteq> [])
   \<or> (\<exists>images. list_images fid date simple w = Inr (Full (length images) images)
         \<and> images \<noteq> [])"
proof (cases "truthy date")
  case False
  then show ?thesis by (simp add: list_images_def)
next
  case True
  let ?p = "path_join IMAGE_DIR (the date)"
  show ?thesis
  proof (cases "lookup (fs w) (split_sep ?p)")
    case None
    then show ?thesis
      using True by (simp add: list_images_def images_of_date_def path_exists_def Let_def)
  next
    case (Some nd)
    then show ?thesis
      using True
      by (cases nd)
        (simp_all add: list_images_def images_of_date_def path_exists_def path_isfile_def
          listdir_def Let_def)
  qed
qed

lemma list_flights_answers:
  assumes "path_isdir (fs w) IMAGE_DIR"
  shows "list_flights w = Inl (HTTPException 404 (Text ''No flights found''))
       \<or> (\<exists>flights. list_flights w = Inr (length flights, flights) \<and> flights \<noteq> [])"
proof -
  from assms obtain names where "listdir (fs w) IMAGE_DIR = Inr names"
    by (auto simp: path_isdir_def listdir_def split: option.splits node.splits)
  then show ?thesis by (simp add: list_flights_def Let_def)
qed

text \<open>
  C8. \<open>get_stats\<close> always answers, with all counts zero on a store without files, and
  a listing that has collected nothing answers 404. But \<open>list_images\<close> tests the date
  directory with \<open>os.path.exists\<close> before \<open>os.listdir\<close>: after one upload, the listing for
  the date string that names the stored image itself finds a path that exists, and
  \<open>os.listdir\<close> raises \<open>NotADirectoryError\<close>, which nothing handles. No image is listed
  and the answer is not 404. The listing for a date without directory answers 404.
\<close>

theorem list_images_date_naming_file_unhandled:
  "path_isfile (fs (snd (upload_image codec0 a_jpg (Some ''F1'') None None None None None w0)))
     (path_join IMAGE_DIR ''2024-01-02/flight_F1/20240102_030405_123.jpg'')
   \<and> list_images None (Some ''2024-01-02/flight_F1/20240102_030405_123.jpg'') False
       (snd (upload_image codec0 a_jpg (Some ''F1'') None None None None None w0)) =
     Inl (Unhandled NotADirectoryError)
   \<and> list_images None (Some ''2024-01-03'') False
       (snd (upload_image codec0 a_jpg (Some ''F1'') None None None None None w0)) =
     Inl (HTTPException 404 (Text ''No images found for date: 2024-01-03''))"
  unfolding upload_a_jpg_F1
  by (simp add: str_defs fs_defs ls_defs truthy_def Let_def)

section \<open>Allocation of names and metadata paths\<close>

lemma upload_batch_burst:
  "upload_batch codec0 [a_jpg, d_jpg] (Some ''F1'') None None None w_burst =
     (\<lparr>total = 2, successful = 2, failed = 0,
       results =
         [Success ''20240102_030405_123.jpg''
            ''images/2024-01-02/flight_F1/20240102_030405_123.jpg'',
          Success ''20240102_030405_123.jpg''
            ''images/2024-01-02/flight_F1/20240102_030405_123.jpg'']\<rparr>,
      \<lparr>fs = [Dir ''images''
               [Dir ''2024-01-02''
                 [Dir ''flight_F1'' [File ''20240102_030405_123.jpg'' ''wxyz'']]],
             Dir ''metadata''
               [Dir ''2024-01-02''
                 [Dir ''flight_F1'' [File ''20240102_030405_123.json'' ''{}'']]],
             Dir ''logs''
               [File ''uploads_2024-01-02.log''
                 (''2024-01-02T03:04:05.123005 | Flight: F1 | Image: 20240102_030405_123.jpg''
                  @ [CHR 0x0A]
                  @ ''2024-01-02T03:04:05.123011 | Flight: F1 | Image: 20240102_030405_123.jpg''
                  @ [CHR 0x0A])]],
        clock = (\<lambda>n. T0\<lparr>microsecond := 123000 + n\<rparr>), ticks = 12\<rparr>)"
  by (simp add: str_defs fs_defs up_defs fmt_defs T0_def codec0_def w_burst_def a_jpg_def
      d_jpg_def Let_def)

text \<open>
  C1. The claim: the stored names of uploads issued without delay into one group directory
  are pairwise distinct, so that no upload overwrites another. \<open>generate_filename\<close> cuts
  the timestamp to milliseconds and adds nothing else: a batch of two files with the same
  extension, handled within one millisecond, reports two successes under one and the same
  stored name, and the store holds a single image, the bytes of the second file.
\<close>

theorem burst_uploads_share_one_stored_name:
  "results (fst (upload_batch codec0 [a_jpg, d_jpg] (Some ''F1'') None None None w_burst)) =
     [Success ''20240102_030405_123.jpg''
        ''images/2024-01-02/flight_F1/20240102_030405_123.jpg'',
      Success ''20240102_030405_123.jpg''
        ''images/2024-01-02/flight_F1/20240102_030405_123.jpg'']
   \<and> read_file
        (fs (snd (upload_batch codec0 [a_jpg, d_jpg] (Some ''F1'') None None None w_burst)))
        ''images/2024-01-02/flight_F1/20240102_030405_123.jpg'' = Inr (content d_jpg)
   \<and> content d_jpg \<noteq> content a_jpg
   \<and> list_images None None True
        (snd (upload_batch codec0 [a_jpg, d_jpg] (Some ''F1'') None None None w_burst)) =
      Inr (Simple [''20240102_030405_123.jpg''])"
  unfolding upload_batch_burst
  by (simp add: str_defs fs_defs ls_defs truthy_def a_jpg_def d_jpg_def Let_def)

lemma upload_photo:
  "upload_image codec0 photo (Some ''F1'') None None None None None w0 =
     (Inr \<lparr>resp_filename = ''20240102_030405_123'',
           resp_status = ''success'',
           resp_path = ''images/2024-01-02/flight_F1/20240102_030405_123'',
           resp_metadata_file =
             ''.jsonm.jsone.jsont.jsona.jsond.jsona.jsont.jsona.json/.json2.json0.json2.json4.json-.json0.json1.json-.json0.json2.json/.jsonf.jsonl.jsoni.jsong.jsonh.jsont.json_.jsonF.json1.json/.json2.json0.json2.json4.json0.json1.json0.json2.json_.json0.json3.json0.json4.json0.json5.json_.json1.json2.json3.json'',
           resp_flight_id = ''F1'',
           resp_uploaded_at = ''2024-01-02T03:04:05.123456''\<rparr>,
      \<lparr>fs = [Dir ''images''
               [Dir ''2024-01-02'' [Dir ''flight_F1'' [File ''20240102_030405_123'' ''abc'']]],
             Dir ''metadata'' [],
             Dir ''logs''
               [File ''uploads_2024-01-02.log''
                 (''2024-01-02T03:04:05.123456 | Flight: F1 | Image: 20240102_030405_123''
                  @ [CHR 0x0A])],
             Dir ''.jsonm.jsone.jsont.jsona.jsond.jsona.jsont.jsona.json''
               [Dir ''.json2.json0.json2.json4.json-.json0.json1.json-.json0.json2.json''
                 [Dir ''.jsonf.jsonl.jsoni.jsong.jsonh.jsont.json_.jsonF.json1.json''
                   [File ''.json2.json0.json2.json4.json0.json1.json0.json2.json_.json0.json3.json0.json4.json0.json5.json_.json1.json2.json3.json''
                      ''{}'']]]],
        clock = (\<lambda>n. T0), ticks = 6\<rparr>)"
  by (simp add: str_defs fs_defs up_defs T0_fmt codec0_def w0_def photo_def Let_def)

text \<open>
  C2. The claim: after every successful upload the metadata record lies at the image path
  with the image root replaced by the metadata root and the extension replaced by
  \<open>.json\<close>, for every original filename. \<open>save_metadata\<close> builds the path with
  \<open>str.replace\<close>, and for a filename without extension the pattern is empty: the upload of
  \<open>photo\<close> succeeds, nothing is written below the metadata root, no file exists at the
  mirrored path, and the record lies in a directory tree of its own beside the three roots.
\<close>

theorem metadata_path_of_name_without_extension:
  "resp_path (projr (fst (upload_image codec0 photo (Some ''F1'') None None None None None w0))) =
     ''images/2024-01-02/flight_F1/20240102_030405_123''
   \<and> \<not> path_exists
        (fs (snd (upload_image codec0 photo (Some ''F1'') None None None None None w0)))
        ''metadata/2024-01-02/flight_F1/20240102_030405_123.json''
   \<and> listdir (fs (snd (upload_image codec0 photo (Some ''F1'') None None None None None w0)))
        ''metadata'' = Inr []
   \<and> take 21 (resp_metadata_file
        (projr (fst (upload_image codec0 photo (Some ''F1'') None None None None None w0)))) =
      ''.jsonm.jsone.jsont.js''
   \<and> path_isfile
        (fs (snd (upload_image codec0 photo (Some ''F1'') None None None None None w0)))
        (resp_metadata_file
          (projr (fst (upload_image codec0 photo (Some ''F1'') None None None None None w0))))"
  unfolding upload_photo
  by (simp add: str_defs fs_defs Let_def)

section \<open>The two-upload scenario\<close>

lemma T1_fmt:
  "strftime_date T1 = ''2024-01-02''"
  "strftime_compact T1 = ''20240102_030405''"
  "strftime_micro T1 = ''20240102_030405_124456''"
  "isoformat T1 = ''2024-01-02T03:04:05.124456''"
  by (simp_all add: fmt_defs T0_def T1_def)

lemma scenario_fs:
  "fs (scenario A B) =
     [Dir ''images''
        [Dir ''2024-01-02''
           [Dir ''flight_X''
              [File ''20240102_030405_123.jpg'' A, File ''20240102_030405_124.png'' B]]],
      Dir ''metadata''
        [Dir ''2024-01-02''
           [Dir ''flight_X''
              [File ''20240102_030405_123.json'' ''{}'',
               File ''20240102_030405_124.json'' ''{}'']]],
      Dir ''logs''
        [File ''uploads_2024-01-02.log''
           (''2024-01-02T03:04:05.123456 | Flight: X | Image: 20240102_030405_123.jpg''
            @ [CHR 0x0A]
            @ ''2024-01-02T03:04:05.124456 | Flight: X | Image: 20240102_030405_124.png''
            @ [CHR 0x0A])]]"
  "clock (scenario A B) = (\<lambda>n. if n < 6 then T0 else T1)"
  "ticks (scenario A B) = 12"
  by (simp_all add: scenario_def str_defs fs_defs up_defs T0_fmt T1_fmt codec0_def
      w_scenario_def Let_def)

lemma scenario_listing:
  "list_images (Some ''X'') None False (scenario A B) =
     Inr (Full 2
       [\<lparr>img_filename = ''20240102_030405_123.jpg'',
         img_path = ''2024-01-02/flight_X/20240102_030405_123.jpg'',
         img_flight_id = Some ''X''\<rparr>,
        \<lparr>img_filename = ''20240102_030405_124.png'',
         img_path = ''2024-01-02/flight_X/20240102_030405_124.png'',
         img_flight_id = Some ''X''\<rparr>])"
  by (simp add: str_defs fs_defs ls_defs truthy_def scenario_fs Let_def)

lemma scenario_stats:
  assumes "length A = 10" "length B = 20"
  shows "fst (get_stats (scenario A B)) =
     Inr \<lparr>total_images = 2, total_size_gb = 0, total_flights = 1,
          images_per_flight = [(''X'', 2)],
          timestamp = ''2024-01-02T03:04:05.124456''\<rparr>"
    and "under_image_root total_bytes (fs (scenario A B)) = 30"
  using assms
  by (simp_all add: str_defs fs_defs get_stats_def walk_files_def count_flight_def round_gb_def
      datetime_now_def under_image_root_def T1_fmt scenario_fs Let_def)

text \<open>
  C5. The claim as stated: after the two uploads \<open>stats\<close> reports, among others, the total
  size in bytes, 30. \<open>get_stats\<close> adds the sizes up to 30 bytes but reports only
  \<open>total_size_gb\<close>, the total divided by \<open>1024^3\<close> and rounded to two decimals: in the
  scenario the size it reports is 0.
\<close>

theorem stats_reports_gigabytes_counterexample:
  "under_image_root total_bytes (fs (scenario ''0123456789'' ''01234567890123456789'')) = 30
   \<and> total_size_gb
        (projr (fst (get_stats (scenario ''0123456789'' ''01234567890123456789'')))) = 0
   \<and> total_size_gb
        (projr (fst (get_stats (scenario ''0123456789'' ''01234567890123456789'')))) \<noteq> 30"
  by (simp add: scenario_stats)

text \<open>
  C5, amended. After uploading \<open>a.jpg\<close> (10 bytes) and \<open>b.png\<close> (20 bytes) to group \<open>X\<close>
  at 03:04:05.123 and one millisecond later, the listing filtered by the group id \<open>X\<close>
  returns exactly two entries, both of group \<open>X\<close>, and \<open>get_stats\<close> reports
  \<open>total_images = 2\<close>, \<open>total_flights = 1\<close>, \<open>images_per_flight = {X: 2}\<close> and, for the 30
  bytes stored, \<open>total_size_gb = 0\<close>.
\<close>

theorem scenario_listing_and_stats:
  assumes "length A = 10" and "length B = 20"
  shows "list_images (Some ''X'') None False (scenario A B) =
           Inr (Full 2
             [\<lparr>img_filename = ''20240102_030405_123.jpg'',
               img_path = ''2024-01-02/flight_X/20240102_030405_123.jpg'',
               img_flight_id = Some ''X''\<rparr>,
              \<lparr>img_filename = ''20240102_030405_124.png'',
               img_path = ''2024-01-02/flight_X/20240102_030405_124.png'',
               img_flight_id = Some ''X''\<rparr>])
       \<and> fst (get_stats (scenario A B)) =
           Inr \<lparr>total_images = 2, total_size_gb = 0, total_flights = 1,
                images_per_flight = [(''X'', 2)],
                timestamp = ''2024-01-02T03:04:05.124456''\<rparr>
       \<and> under_image_root total_bytes (fs (scenario A B)) = 30"
  using assms by (simp add: scenario_listing scenario_stats)

theorem scenario_listing_and_stats_witness:
  "length ''0123456789'' = 10 \<and> length ''01234567890123456789'' = 20
   \<and> list_images (Some ''X'') None False (scenario ''0123456789'' ''01234567890123456789'') =
       Inr (Full 2
         [\<lparr>img_filename = ''20240102_030405_123.jpg'',
           img_path = ''2024-01-02/flight_X/20240102_030405_123.jpg'',
           img_flight_id = Some ''X''\<rparr>,
          \<lparr>img_filename = ''20240102_030405_124.png'',
           img_path = ''2024-01-02/flight_X/20240102_030405_124.png'',
           img_flight_id = Some ''X''\<rparr>])
   \<and> fst (get_stats (scenario ''0123456789'' ''01234567890123456789'')) =
       Inr \<lparr>total_images = 2, total_size_gb = 0, total_flights = 1,
            images_per_flight = [(''X'', 2)],
            timestamp = ''2024-01-02T03:04:05.124456''\<rparr>"
proof -
  have a: "length ''0123456789'' = 10" by simp
  have b: "length ''01234567890123456789'' = 20" by simp
  from scenario_listing_and_stats[OF a b] a b show ?thesis by simp
qed

section \<open>Group ids in listings\<close>






















subsection \<open>The listed entries\<close>







end
